theory Spec2Isabelle
  imports Main "HOL-Library.Word"
begin

section \<open>Data model of \<^verbatim>\<open>version_bumper.py\<close>\<close>

text \<open>
  A \<^verbatim>\<open>bytearray\<close> is a list of 8-bit words.  Python text is either a list of 16-bit code
  units read from the buffer (\<open>nat list\<close>, what \<^verbatim>\<open>chr(char_code)\<close> collects) or an ASCII
  \<open>string\<close> produced by the program itself (\<^verbatim>\<open>str(int)\<close>, the literal \<^verbatim>\<open>"FileVersion"\<close>).
  Python integers are \<open>int\<close>; offsets that index the buffer are \<open>nat\<close>.
\<close>

type_synonym byte = "8 word"
type_synonym bytes = "byte list"

record VersionInfo =
  major :: int
  minor :: int
  build :: int
  release :: int

text \<open>
  Every way a step of the tool stops: the two analysis steps that print a message and
  return \<^verbatim>\<open>False\<close> (\<open>SignatureNotFound\<close>, \<open>MarkerNotFound\<close>), and the exceptions raised on
  the way: \<^verbatim>\<open>ValueError\<close> of \<^verbatim>\<open>VersionInfo.from_string\<close> (\<open>MalformedVersion\<close>),
  \<^verbatim>\<open>struct.error\<close> for a number outside \<open>0..65535\<close> (\<open>OutOfRange\<close>), \<^verbatim>\<open>struct.error\<close> for an
  offset that leaves the buffer (\<open>BufferTooSmall\<close>), \<^verbatim>\<open>IndexError\<close> and \<^verbatim>\<open>RuntimeError\<close>.
\<close>

datatype error =
    SignatureNotFound
  | MarkerNotFound
  | MalformedVersion
  | OutOfRange
  | BufferTooSmall
  | IndexError
  | RuntimeError

text \<open>
  The fields of a \<^verbatim>\<open>ResVersionBumper\<close> once \<^verbatim>\<open>analyze\<close> has returned \<^verbatim>\<open>True\<close>.  Before that
  the offsets are \<open>-1\<close> and \<^verbatim>\<open>current_version\<close> is \<^verbatim>\<open>None\<close>; no update method is reached in
  that state (\<^verbatim>\<open>bump\<close> returns first), so the record holds the analysed object only.
  The \<^verbatim>\<open>modifications\<close> ledger is reporting only and is left out.
\<close>

record bumper =
  data :: bytes
  ffi_offset :: nat
  file_version_ls_offset :: nat
  product_version_ls_offset :: nat
  file_version_string_offset :: nat
  current_version :: VersionInfo
  new_version :: "VersionInfo option"

section \<open>Python primitives used by the tool\<close>

text \<open>\<^verbatim>\<open>str(n)\<close> for an integer: decimal digits, with a minus sign when negative.\<close>

function digits :: "nat \<Rightarrow> string" where
  "digits n = (if n < 10 then [''0123456789'' ! n]
               else digits (n div 10) @ [''0123456789'' ! (n mod 10)])"
  by pat_completeness auto
termination
  by (relation "measure id") auto

declare digits.simps [simp del]

definition str_int :: "int \<Rightarrow> string" where
  "str_int i = (if i < 0 then CHR ''-'' # digits (nat (- i)) else digits (nat i))"

text \<open>\<^verbatim>\<open>s.encode('utf-16-le')\<close> on the ASCII text the tool builds: two bytes per character.\<close>

definition encode_utf16le :: "string \<Rightarrow> bytes" where
  "encode_utf16le s = concat (map (\<lambda>c. [of_char c, 0]) s)"

text \<open>\<^verbatim>\<open>data.find(sub, start)\<close>; \<open>None\<close> is Python's \<open>-1\<close>.\<close>

fun find_at :: "bytes \<Rightarrow> bytes \<Rightarrow> nat \<Rightarrow> nat option" where
  "find_at sub [] k = (if sub = [] then Some k else None)"
| "find_at sub (x # xs) k =
     (if take (length sub) (x # xs) = sub then Some k else find_at sub xs (k + 1))"

definition find :: "bytes \<Rightarrow> bytes \<Rightarrow> nat \<Rightarrow> nat option" where
  "find d sub start = (if length d < start then None else find_at sub (drop start d) start)"

text \<open>
  The offset rule shared by \<^verbatim>\<open>struct.unpack_from\<close> and \<^verbatim>\<open>struct.pack_into\<close>: a negative
  offset counts from the end of the buffer, and \<open>sz\<close> bytes must fit.
\<close>

definition struct_offset :: "bytes \<Rightarrow> int \<Rightarrow> int \<Rightarrow> error + nat" where
  "struct_offset d offset sz =
     (let n = int (length d) in
      if offset < 0 \<and> (offset + sz > 0 \<or> offset + n < 0) then Inl BufferTooSmall
      else let off = (if offset < 0 then offset + n else offset) in
        if n - off < sz then Inl BufferTooSmall else Inr (nat off))"

text \<open>The little-endian half-word at index \<open>i\<close>; only used where \<open>i + 1 < length d\<close>.\<close>

definition u16_at :: "bytes \<Rightarrow> nat \<Rightarrow> nat" where
  "u16_at d i = unat (d ! i) + 256 * unat (d ! (i + 1))"

definition unpack_from_H :: "bytes \<Rightarrow> int \<Rightarrow> error + nat" where
  "unpack_from_H d offset =
     (case struct_offset d offset 2 of Inl e \<Rightarrow> Inl e | Inr i \<Rightarrow> Inr (u16_at d i))"

definition unpack_from_I :: "bytes \<Rightarrow> int \<Rightarrow> error + nat" where
  "unpack_from_I d offset =
     (case struct_offset d offset 4 of
        Inl e \<Rightarrow> Inl e
      | Inr i \<Rightarrow> Inr (u16_at d i + 65536 * u16_at d (i + 2)))"

text \<open>\<^verbatim>\<open>struct.pack_into('<H', data, offset, v)\<close>: the bounds are checked before the value.\<close>

definition pack_into_H :: "bytes \<Rightarrow> int \<Rightarrow> int \<Rightarrow> error + bytes" where
  "pack_into_H d offset v =
     (case struct_offset d offset 2 of
        Inl e \<Rightarrow> Inl e
      | Inr i \<Rightarrow>
          if v < 0 \<or> 65535 < v then Inl OutOfRange
          else Inr (d[i := word_of_int (v mod 256), i + 1 := word_of_int (v div 256)]))"

text \<open>
  Slice bounds \<^verbatim>\<open>data[:k]\<close> and \<^verbatim>\<open>data[k:]\<close> for an integer \<open>k\<close>: a negative bound counts from
  the end, and both are clamped to the buffer.
\<close>

definition slice_index :: "bytes \<Rightarrow> int \<Rightarrow> nat" where
  "slice_index d k =
     (if k < 0 then nat (max 0 (int (length d) + k)) else min (nat k) (length d))"

text \<open>\<^verbatim>\<open>s.split('.')\<close> on a list of code units.\<close>

fun split_on :: "nat \<Rightarrow> nat list \<Rightarrow> nat list list" where
  "split_on c [] = [[]]"
| "split_on c (x # xs) =
     (case split_on c xs of
        [] \<Rightarrow> [[]]
      | p # ps \<Rightarrow> if x = c then [] # p # ps else (x # p) # ps)"

text \<open>
  Python's built-in \<^verbatim>\<open>int(str)\<close> is not code of the repository: the functions that parse a
  version take it as the parameter \<open>to_int\<close> (\<open>None\<close> is its \<^verbatim>\<open>ValueError\<close>).  \<open>ascii_int\<close> is
  what it does on ASCII text: surrounding white space, one sign, decimal digits with single
  underscores between them.
\<close>

definition is_space :: "nat \<Rightarrow> bool" where
  "is_space c = (c = 32 \<or> (9 \<le> c \<and> c \<le> 13) \<or> (28 \<le> c \<and> c \<le> 31))"

fun int_digits :: "nat list \<Rightarrow> bool \<Rightarrow> int \<Rightarrow> int option" where
  "int_digits [] prev acc = (if prev then Some acc else None)"
| "int_digits (c # cs) prev acc =
     (if 48 \<le> c \<and> c \<le> 57 then int_digits cs True (10 * acc + int (c - 48))
      else if c = 95 \<and> prev then int_digits cs False acc
      else None)"

definition ascii_int :: "nat list \<Rightarrow> int option" where
  "ascii_int s =
     (case rev (dropWhile is_space (rev (dropWhile is_space s))) of
        [] \<Rightarrow> None
      | c # cs \<Rightarrow>
          if c = 45 then map_option uminus (int_digits cs False 0)
          else if c = 43 then int_digits cs False 0
          else int_digits (c # cs) False 0)"

section \<open>\<^verbatim>\<open>VersionInfo\<close>\<close>

text \<open>
  \<^verbatim>\<open>f"{major}.{minor}.{build}.{release}"\<close> with the build given as text, as the sweep of
  the resizing patch writes it; \<^verbatim>\<open>__str__\<close> is the case \<open>b = str_int (build v)\<close>.
\<close>

definition version_text :: "VersionInfo \<Rightarrow> string \<Rightarrow> string" where
  "version_text v b =
     str_int (major v) @ ''.'' @ str_int (minor v) @ ''.'' @ b @ ''.'' @ str_int (release v)"

definition from_string :: "(nat list \<Rightarrow> int option) \<Rightarrow> nat list \<Rightarrow> error + VersionInfo" where
  "from_string to_int version_str =
     (case split_on 46 version_str of
        [p0, p1, p2, p3] \<Rightarrow>
          (case (to_int p0, to_int p1, to_int p2, to_int p3) of
             (Some a, Some b, Some c, Some d) \<Rightarrow>
               Inr \<lparr>major = a, minor = b, build = c, release = d\<rparr>
           | _ \<Rightarrow> Inl MalformedVersion)
      | _ \<Rightarrow> Inl MalformedVersion)"

section \<open>Analysis: \<^verbatim>\<open>find_binary_version\<close>, \<^verbatim>\<open>find_string_version\<close>, \<^verbatim>\<open>analyze\<close>\<close>

definition VS_FFI_SIGNATURE :: bytes where
  "VS_FFI_SIGNATURE = [0xBD, 0x04, 0xEF, 0xFE]"

text \<open>
  Returns \<^verbatim>\<open>ffi_offset\<close>, \<^verbatim>\<open>file_version_ls_offset\<close> and \<^verbatim>\<open>product_version_ls_offset\<close>.  The
  two 32-bit words are read (and only printed), so a signature in the last 15 bytes of the
  buffer raises \<^verbatim>\<open>struct.error\<close>.
\<close>

definition find_binary_version :: "bytes \<Rightarrow> error + (nat \<times> nat \<times> nat)" where
  "find_binary_version d =
     (case find d VS_FFI_SIGNATURE 0 of
        None \<Rightarrow> Inl SignatureNotFound
      | Some pos \<Rightarrow>
          let ls = pos + 4 + 4 + 4; pls = ls + 4 + 4 in
          (case unpack_from_I d (int (pos + 4 + 4)) of
             Inl e \<Rightarrow> Inl e
           | Inr file_ver_ms \<Rightarrow>
               (case unpack_from_I d (int ls) of
                  Inl e \<Rightarrow> Inl e
                | Inr file_ver_ls \<Rightarrow> Inr (pos, ls, pls))))"

text \<open>\<^verbatim>\<open>while search_start < len(data) and data[search_start] == 0: search_start += 1\<close>\<close>

function skip_padding :: "bytes \<Rightarrow> nat \<Rightarrow> nat" where
  "skip_padding d i = (if i < length d \<and> d ! i = 0 then skip_padding d (i + 1) else i)"
  by pat_completeness auto
termination
  by (relation "measure (\<lambda>(d, i). length d - i)") auto

declare skip_padding.simps [simp del]

text \<open>The loop that collects the code units of the version text up to a zero unit.\<close>

function read_version_chars :: "bytes \<Rightarrow> nat \<Rightarrow> nat list" where
  "read_version_chars d i =
     (if i + 1 < length d then
        (let char_code = u16_at d i in
         if char_code = 0 then [] else char_code # read_version_chars d (i + 2))
      else [])"
  by pat_completeness auto
termination
  by (relation "measure (\<lambda>(d, i). length d - i)") auto

declare read_version_chars.simps [simp del]

definition find_string_version ::
  "(nat list \<Rightarrow> int option) \<Rightarrow> bytes \<Rightarrow> error + (nat \<times> VersionInfo)" where
  "find_string_version to_int d =
     (let file_version_unicode = encode_utf16le ''FileVersion'' in
      case find d file_version_unicode 0 of
        None \<Rightarrow> Inl MarkerNotFound
      | Some pos \<Rightarrow>
          let search_start = skip_padding d (pos + length file_version_unicode + 2);
              version_string = read_version_chars d search_start
          in (case from_string to_int version_string of
                Inl e \<Rightarrow> Inl e
              | Inr v \<Rightarrow> Inr (search_start, v)))"

text \<open>\<^verbatim>\<open>load\<close> hands over the bytes of the file; the two searches follow in this order.\<close>

definition analyze :: "(nat list \<Rightarrow> int option) \<Rightarrow> bytes \<Rightarrow> error + bumper" where
  "analyze to_int d =
     (case find_binary_version d of
        Inl e \<Rightarrow> Inl e
      | Inr (ffi, ls, pls) \<Rightarrow>
          (case find_string_version to_int d of
             Inl e \<Rightarrow> Inl e
           | Inr (so, v) \<Rightarrow>
               Inr \<lparr>data = d, ffi_offset = ffi, file_version_ls_offset = ls,
                    product_version_ls_offset = pls, file_version_string_offset = so,
                    current_version = v, new_version = None\<rparr>))"

section \<open>The new version\<close>

definition calculate_new_version :: "bumper \<Rightarrow> int option \<Rightarrow> VersionInfo \<times> bumper" where
  "calculate_new_version s new_build =
     (let cur = current_version s;
          nb = (case new_build of None \<Rightarrow> build cur + 1 | Some b \<Rightarrow> b);
          nv = \<lparr>major = major cur, minor = minor cur, build = nb, release = release cur\<rparr>
      in (nv, s\<lparr>new_version := Some nv\<rparr>))"

text \<open>Step 6 of \<^verbatim>\<open>ProjectVersionBumper.bump\<close>, from the version the \<^verbatim>\<open>.res\<close> analysis found.\<close>

definition project_new_version :: "VersionInfo \<Rightarrow> int option \<Rightarrow> VersionInfo" where
  "project_new_version cur new_build =
     (let nb = (case new_build of None \<Rightarrow> build cur + 1 | Some b \<Rightarrow> b)
      in \<lparr>major = major cur, minor = minor cur, build = nb, release = release cur\<rparr>)"

section \<open>The binary half-word: \<^verbatim>\<open>update_binary_version\<close>\<close>

definition update_binary_version :: "bumper \<Rightarrow> error + bumper" where
  "update_binary_version s =
     (case new_version s of
        None \<Rightarrow> Inl RuntimeError
      | Some nv \<Rightarrow>
          let build_offset = file_version_ls_offset s + 2 in
          if length (data s) < build_offset + 2 then Inl IndexError
          else (case pack_into_H (data s) (int build_offset) (build nv) of
                  Inl e \<Rightarrow> Inl e
                | Inr d \<Rightarrow> Inr (s\<lparr>data := d\<rparr>)))"

section \<open>The version text: \<^verbatim>\<open>update_string_version\<close>\<close>

text \<open>
  The scan both patchers run from \<^verbatim>\<open>file_version_string_offset\<close>: it stops at a zero unit
  (\<open>None\<close> is \<^verbatim>\<open>build_str_offset == -1\<close>) or just after the second dot.
\<close>

function locate_build :: "bytes \<Rightarrow> nat \<Rightarrow> nat \<Rightarrow> nat option" where
  "locate_build d i dot_count =
     (if i + 1 < length d then
        (let char_code = u16_at d i in
         if char_code = 0 then None
         else if char_code = 46 then
           (if dot_count + 1 = 2 then Some (i + 2)
            else locate_build d (i + 2) (dot_count + 1))
         else locate_build d (i + 2) dot_count)
      else None)"
  by pat_completeness auto
termination
  by (relation "measure (\<lambda>(d, i, c). length d - i)") auto

declare locate_build.simps [simp del]

text \<open>The end of the build digits: the next dot, a zero unit, or the end of the buffer.\<close>

function scan_build_end :: "bytes \<Rightarrow> nat \<Rightarrow> nat" where
  "scan_build_end d j =
     (if j + 1 < length d then
        (let char_code = u16_at d j in
         if char_code = 46 \<or> char_code = 0 then j else scan_build_end d (j + 2))
      else j)"
  by pat_completeness auto
termination
  by (relation "measure (\<lambda>(d, j). length d - j)") auto

declare scan_build_end.simps [simp del]

text \<open>
  \<^verbatim>\<open>for j, char in enumerate(new_build_str): struct.pack_into('<H', data, off + j * 2, ord(char))\<close>
\<close>

fun write_chars :: "bytes \<Rightarrow> nat \<Rightarrow> string \<Rightarrow> error + bytes" where
  "write_chars d off [] = Inr d"
| "write_chars d off (c # cs) =
     (case pack_into_H d (int off) (of_char c) of
        Inl e \<Rightarrow> Inl e
      | Inr d' \<Rightarrow> write_chars d' (off + 2) cs)"

text \<open>\<^verbatim>\<open>for i, byte in enumerate(new_pattern): self.data[pos + i] = byte\<close>\<close>

fun overwrite :: "bytes \<Rightarrow> nat \<Rightarrow> bytes \<Rightarrow> error + bytes" where
  "overwrite d pos [] = Inr d"
| "overwrite d pos (b # bs) =
     (if pos < length d then overwrite (d[pos := b]) (pos + 1) bs else Inl IndexError)"

text \<open>
  The loop of \<^verbatim>\<open>_update_all_version_strings\<close> from search position \<open>pos\<close>.  The patterns are
  \<^verbatim>\<open>f".{old_build}."\<close> and \<^verbatim>\<open>f".{new_build}."\<close>, so the old one is never empty and the search
  position grows.
\<close>

function update_all_version_strings_from ::
  "bytes \<Rightarrow> string \<Rightarrow> string \<Rightarrow> nat \<Rightarrow> error + bytes" where
  "update_all_version_strings_from d old_build new_build pos =
     (case find d (encode_utf16le (''.'' @ old_build @ ''.'')) pos of
        None \<Rightarrow> Inr d
      | Some p \<Rightarrow>
          (case overwrite d p (encode_utf16le (''.'' @ new_build @ ''.'')) of
             Inl e \<Rightarrow> Inl e
           | Inr d' \<Rightarrow>
               update_all_version_strings_from d' old_build new_build
                 (p + length (encode_utf16le (''.'' @ old_build @ ''.'')))))"
  by pat_completeness auto

definition update_all_version_strings :: "bytes \<Rightarrow> string \<Rightarrow> string \<Rightarrow> error + bytes" where
  "update_all_version_strings d old_build new_build =
     update_all_version_strings_from d old_build new_build 0"

definition update_string_version_same_length ::
  "bumper \<Rightarrow> string \<Rightarrow> string \<Rightarrow> error + (bool \<times> bumper)" where
  "update_string_version_same_length s old_build_str new_build_str =
     (case locate_build (data s) (file_version_string_offset s) 0 of
        None \<Rightarrow> Inr (False, s)
      | Some build_str_offset \<Rightarrow>
          (case write_chars (data s) build_str_offset new_build_str of
             Inl e \<Rightarrow> Inl e
           | Inr d \<Rightarrow>
               (case update_all_version_strings d old_build_str new_build_str of
                  Inl e \<Rightarrow> Inl e
                | Inr d' \<Rightarrow> Inr (True, s\<lparr>data := d'\<rparr>))))"

subsection \<open>Length fields\<close>

text \<open>
  One block of \<^verbatim>\<open>_update_length_fields\<close>: a field at or beyond \<^verbatim>\<open>len(self.data) - 2\<close> is
  skipped, otherwise the half-word is read, \<open>delta\<close> is added and the sum is packed back.
\<close>

definition adjust_field :: "bytes \<Rightarrow> nat \<Rightarrow> int \<Rightarrow> error + bytes" where
  "adjust_field d offset delta =
     (if int offset < int (length d) - 2 then
        (let old_val = int (u16_at d offset); new_val = old_val + delta
         in pack_into_H d (int offset) new_val)
      else Inr d)"

fun adjust_fields :: "bytes \<Rightarrow> (nat \<times> int) list \<Rightarrow> error + bytes" where
  "adjust_fields d [] = Inr d"
| "adjust_fields d ((offset, delta) # fs) =
     (case adjust_field d offset delta of
        Inl e \<Rightarrow> Inl e
      | Inr d' \<Rightarrow> adjust_fields d' fs)"

text \<open>The six blocks in the order of the source, each with the difference it adds.\<close>

definition length_fields :: "int \<Rightarrow> int \<Rightarrow> (nat \<times> int) list" where
  "length_fields byte_diff aligned_byte_diff =
     [(0x0020, aligned_byte_diff), (0x0040, aligned_byte_diff),
      (0x009C, aligned_byte_diff), (0x00C0, aligned_byte_diff),
      (0x015C, byte_diff), (0x015E, byte_diff div 2)]"

definition update_length_fields :: "int \<Rightarrow> int \<Rightarrow> int \<Rightarrow> bytes \<Rightarrow> error + bytes" where
  "update_length_fields byte_diff aligned_byte_diff fv_entry_offset d =
     adjust_fields d (length_fields byte_diff aligned_byte_diff)"

subsection \<open>The sweep after a resize\<close>

text \<open>
  The loop that collects \<^verbatim>\<open>positions\<close>.  The pattern is the old version text, which holds
  three dots, so the search position grows.
\<close>

function find_positions :: "bytes \<Rightarrow> VersionInfo \<Rightarrow> string \<Rightarrow> nat \<Rightarrow> nat list" where
  "find_positions d cur old_build pos =
     (case find d (encode_utf16le (version_text cur old_build)) pos of
        None \<Rightarrow> []
      | Some p \<Rightarrow>
          p # find_positions d cur old_build
                (p + length (encode_utf16le (version_text cur old_build))))"
  by pat_completeness auto

text \<open>
  \<^verbatim>\<open>for pos in reversed(positions[1:])\<close>: \<open>foldr\<close> applies the last position first.
\<close>

definition update_all_version_strings_with_length_change ::
  "bytes \<Rightarrow> VersionInfo \<Rightarrow> VersionInfo \<Rightarrow> string \<Rightarrow> string \<Rightarrow> bytes" where
  "update_all_version_strings_with_length_change d cur nv old_build new_build =
     (let old_pattern = encode_utf16le (version_text cur old_build);
          new_pattern = encode_utf16le (version_text nv new_build);
          positions = find_positions d cur old_build 0
      in foldr (\<lambda>pos acc. take pos acc @ new_pattern @ drop (pos + length old_pattern) acc)
           (tl positions) d)"

subsection \<open>The resizing patch\<close>

text \<open>
  Step 6 of \<^verbatim>\<open>_update_string_version_diff_length\<close>:
  \<^verbatim>\<open>self.data[:build_str_offset] + bytearray(new_build_bytes) + self.data[build_end_offset:]\<close>.
\<close>

definition splice_build :: "bytes \<Rightarrow> nat \<Rightarrow> nat \<Rightarrow> string \<Rightarrow> bytes" where
  "splice_build d build_str_offset build_end_offset new_build_str =
     take build_str_offset d @ encode_utf16le new_build_str @ drop build_end_offset d"

text \<open>
  Step 7: when padding is needed, \<^verbatim>\<open>padding_needed\<close> zero bytes are inserted at
  \<^verbatim>\<open>string_end_offset\<close>, which is an integer computed from the declared entry length and
  is used as a slice bound.
\<close>

definition insert_padding :: "bytes \<Rightarrow> int \<Rightarrow> int \<Rightarrow> bytes" where
  "insert_padding d string_end_offset padding_needed =
     (if padding_needed > 0 then
        take (slice_index d string_end_offset) d
        @ replicate (nat padding_needed) 0
        @ drop (slice_index d string_end_offset) d
      else d)"

text \<open>
  Steps 1 to 8 of \<^verbatim>\<open>_update_string_version_diff_length\<close>: the buffer after the splice, the
  padding and the length fields.  \<open>Inr None\<close> is one of its two \<^verbatim>\<open>return False\<close>.
\<close>

definition resize_build ::
  "bumper \<Rightarrow> string \<Rightarrow> string \<Rightarrow> int \<Rightarrow> error + bytes option" where
  "resize_build s old_build_str new_build_str len_diff =
     (let byte_diff = len_diff * 2;
          aligned_byte_diff = ((byte_diff + 3) div 4) * 4
      in case find (data s) (encode_utf16le ''FileVersion'') 0 of
           None \<Rightarrow> Inr None
         | Some fv_key_pos \<Rightarrow>
             let fv_entry_offset = int fv_key_pos - 6 in
             (case unpack_from_H (data s) fv_entry_offset of
                Inl e \<Rightarrow> Inl e
              | Inr fv_wLength \<Rightarrow>
                  (case unpack_from_H (data s) (fv_entry_offset + 2) of
                     Inl e \<Rightarrow> Inl e
                   | Inr fv_wValueLength \<Rightarrow>
                       (case locate_build (data s) (file_version_string_offset s) 0 of
                          None \<Rightarrow> Inr None
                        | Some build_str_offset \<Rightarrow>
                            let build_end_offset = scan_build_end (data s) build_str_offset;
                                fv_entry_end = fv_entry_offset + int fv_wLength;
                                d1 = splice_build (data s) build_str_offset build_end_offset
                                       new_build_str;
                                padding_needed = aligned_byte_diff - byte_diff;
                                string_end_offset = fv_entry_end + byte_diff;
                                d2 = insert_padding d1 string_end_offset padding_needed
                            in (case update_length_fields byte_diff aligned_byte_diff
                                       fv_entry_offset d2 of
                                  Inl e \<Rightarrow> Inl e
                                | Inr d3 \<Rightarrow> Inr (Some d3))))))"

definition update_string_version_diff_length ::
  "bumper \<Rightarrow> VersionInfo \<Rightarrow> string \<Rightarrow> string \<Rightarrow> int \<Rightarrow> error + (bool \<times> bumper)" where
  "update_string_version_diff_length s nv old_build_str new_build_str len_diff =
     (case resize_build s old_build_str new_build_str len_diff of
        Inl e \<Rightarrow> Inl e
      | Inr None \<Rightarrow> Inr (False, s)
      | Inr (Some d3) \<Rightarrow>
          Inr (True, s\<lparr>data := update_all_version_strings_with_length_change d3
                                 (current_version s) nv old_build_str new_build_str\<rparr>))"

definition update_string_version :: "bumper \<Rightarrow> error + (bool \<times> bumper)" where
  "update_string_version s =
     (case new_version s of
        None \<Rightarrow> Inl RuntimeError
      | Some nv \<Rightarrow>
          let old_build_str = str_int (build (current_version s));
              new_build_str = str_int (build nv);
              len_diff = int (length new_build_str) - int (length old_build_str)
          in if len_diff = 0 then
               update_string_version_same_length s old_build_str new_build_str
             else update_string_version_diff_length s nv old_build_str new_build_str len_diff)"

section \<open>The session: \<^verbatim>\<open>ResVersionBumper.bump\<close>\<close>

text \<open>
  The first component is \<open>Inl\<close> when the session stops early (a \<^verbatim>\<open>return False\<close> of the
  analysis or an exception) and the final object otherwise; the second is what \<^verbatim>\<open>save\<close>
  writes to the file, \<open>None\<close> when \<^verbatim>\<open>save\<close> is not reached.  The result of
  \<^verbatim>\<open>update_string_version\<close> is dropped, as in the source.
\<close>

definition bump ::
  "(nat list \<Rightarrow> int option) \<Rightarrow> bytes \<Rightarrow> int option \<Rightarrow> bool \<Rightarrow> (error + bumper) \<times> bytes option" where
  "bump to_int file new_build dry_run =
     (case analyze to_int file of
        Inl e \<Rightarrow> (Inl e, None)
      | Inr s0 \<Rightarrow>
          let s1 = snd (calculate_new_version s0 new_build) in
          (case update_binary_version s1 of
             Inl e \<Rightarrow> (Inl e, None)
           | Inr s2 \<Rightarrow>
               (case update_string_version s2 of
                  Inl e \<Rightarrow> (Inl e, None)
                | Inr (ok, s3) \<Rightarrow>
                    (Inr s3, if dry_run then None else Some (data s3)))))"

section \<open>Concrete files\<close>

text \<open>
  A resource file laid out as the tool expects it: the block sizes at \<open>0x20\<close> and \<open>0x40\<close>,
  the \<^verbatim>\<open>VS_FIXEDFILEINFO\<close> signature at \<open>0x68\<close> with the binary version 10.2503.9.0
  behind it, the table lengths at \<open>0x9C\<close> and \<open>0xC0\<close>, the \<^verbatim>\<open>FileVersion\<close> entry at \<open>0x15C\<close>
  with the text \<^verbatim>\<open>10.2503.9.0\<close> at \<open>0x17C\<close>, and a \<^verbatim>\<open>ProductVersion\<close> entry at \<open>0x194\<close> holding
  the same text at \<open>0x1B8\<close>.
\<close>

definition res_9 :: bytes where
  "res_9 =
    [0, 0, 0, 0, 0, 0, 0, 0, 0, 0, 0, 0, 0, 0, 0, 0, 0, 0, 0, 0,
     0, 0, 0, 0, 0, 0, 0, 0, 0, 0, 0, 0, 80, 1, 0, 0, 0, 0, 0, 0,
     0, 0, 0, 0, 0, 0, 0, 0, 0, 0, 0, 0, 0, 0, 0, 0, 0, 0, 0, 0,
     0, 0, 0, 0, 80, 1, 0, 0, 0, 0, 0, 0, 0, 0, 0, 0, 0, 0, 0, 0,
     0, 0, 0, 0, 0, 0, 0, 0, 0, 0, 0, 0, 0, 0, 0, 0, 0, 0, 0, 0,
     0, 0, 0, 0, 189, 4, 239, 254, 0, 0, 1, 0, 199, 9, 10, 0, 0, 0, 9, 0,
     0, 0, 0, 0, 0, 0, 0, 0, 0, 0, 0, 0, 0, 0, 0, 0, 0, 0, 0, 0,
     0, 0, 0, 0, 0, 0, 0, 0, 0, 0, 0, 0, 0, 0, 0, 0, 240, 0, 0, 0,
     0, 0, 0, 0, 0, 0, 0, 0, 0, 0, 0, 0, 0, 0, 0, 0, 0, 0, 0, 0,
     0, 0, 0, 0, 0, 0, 0, 0, 0, 0, 0, 0, 204, 0, 0, 0, 0, 0, 0, 0,
     0, 0, 0, 0, 0, 0, 0, 0, 0, 0, 0, 0, 0, 0, 0, 0, 0, 0, 0, 0,
     0, 0, 0, 0, 0, 0, 0, 0, 0, 0, 0, 0, 0, 0, 0, 0, 0, 0, 0, 0,
     0, 0, 0, 0, 0, 0, 0, 0, 0, 0, 0, 0, 0, 0, 0, 0, 0, 0, 0, 0,
     0, 0, 0, 0, 0, 0, 0, 0, 0, 0, 0, 0, 0, 0, 0, 0, 0, 0, 0, 0,
     0, 0, 0, 0, 0, 0, 0, 0, 0, 0, 0, 0, 0, 0, 0, 0, 0, 0, 0, 0,
     0, 0, 0, 0, 0, 0, 0, 0, 0, 0, 0, 0, 0, 0, 0, 0, 0, 0, 0, 0,
     0, 0, 0, 0, 0, 0, 0, 0, 0, 0, 0, 0, 0, 0, 0, 0, 0, 0, 0, 0,
     0, 0, 0, 0, 0, 0, 0, 0, 56, 0, 12, 0, 1, 0, 70, 0, 105, 0, 108, 0,
     101, 0, 86, 0, 101, 0, 114, 0, 115, 0, 105, 0, 111, 0, 110, 0, 0, 0, 0, 0,
     49, 0, 48, 0, 46, 0, 50, 0, 53, 0, 48, 0, 51, 0, 46, 0, 57, 0, 46, 0,
     48, 0, 0, 0, 60, 0, 12, 0, 1, 0, 80, 0, 114, 0, 111, 0, 100, 0, 117, 0,
     99, 0, 116, 0, 86, 0, 101, 0, 114, 0, 115, 0, 105, 0, 111, 0, 110, 0, 0, 0,
     49, 0, 48, 0, 46, 0, 50, 0, 53, 0, 48, 0, 51, 0, 46, 0, 57, 0, 46, 0,
     48, 0, 0, 0]"

text \<open>What the tool makes of \<open>res_9\<close> for the target builds 10 and 8, and of the former for 9.\<close>

definition res_9_grown :: bytes where
  "res_9_grown =
    [0, 0, 0, 0, 0, 0, 0, 0, 0, 0, 0, 0, 0, 0, 0, 0, 0, 0, 0, 0,
     0, 0, 0, 0, 0, 0, 0, 0, 0, 0, 0, 0, 84, 1, 0, 0, 0, 0, 0, 0,
     0, 0, 0, 0, 0, 0, 0, 0, 0, 0, 0, 0, 0, 0, 0, 0, 0, 0, 0, 0,
     0, 0, 0, 0, 84, 1, 0, 0, 0, 0, 0, 0, 0, 0, 0, 0, 0, 0, 0, 0,
     0, 0, 0, 0, 0, 0, 0, 0, 0, 0, 0, 0, 0, 0, 0, 0, 0, 0, 0, 0,
     0, 0, 0, 0, 189, 4, 239, 254, 0, 0, 1, 0, 199, 9, 10, 0, 0, 0, 10, 0,
     0, 0, 0, 0, 0, 0, 0, 0, 0, 0, 0, 0, 0, 0, 0, 0, 0, 0, 0, 0,
     0, 0, 0, 0, 0, 0, 0, 0, 0, 0, 0, 0, 0, 0, 0, 0, 244, 0, 0, 0,
     0, 0, 0, 0, 0, 0, 0, 0, 0, 0, 0, 0, 0, 0, 0, 0, 0, 0, 0, 0,
     0, 0, 0, 0, 0, 0, 0, 0, 0, 0, 0, 0, 208, 0, 0, 0, 0, 0, 0, 0,
     0, 0, 0, 0, 0, 0, 0, 0, 0, 0, 0, 0, 0, 0, 0, 0, 0, 0, 0, 0,
     0, 0, 0, 0, 0, 0, 0, 0, 0, 0, 0, 0, 0, 0, 0, 0, 0, 0, 0, 0,
     0, 0, 0, 0, 0, 0, 0, 0, 0, 0, 0, 0, 0, 0, 0, 0, 0, 0, 0, 0,
     0, 0, 0, 0, 0, 0, 0, 0, 0, 0, 0, 0, 0, 0, 0, 0, 0, 0, 0, 0,
     0, 0, 0, 0, 0, 0, 0, 0, 0, 0, 0, 0, 0, 0, 0, 0, 0, 0, 0, 0,
     0, 0, 0, 0, 0, 0, 0, 0, 0, 0, 0, 0, 0, 0, 0, 0, 0, 0, 0, 0,
     0, 0, 0, 0, 0, 0, 0, 0, 0, 0, 0, 0, 0, 0, 0, 0, 0, 0, 0, 0,
     0, 0, 0, 0, 0, 0, 0, 0, 58, 0, 13, 0, 1, 0, 70, 0, 105, 0, 108, 0,
     101, 0, 86, 0, 101, 0, 114, 0, 115, 0, 105, 0, 111, 0, 110, 0, 0, 0, 0, 0,
     49, 0, 48, 0, 46, 0, 50, 0, 53, 0, 48, 0, 51, 0, 46, 0, 49, 0, 48, 0,
     46, 0, 48, 0, 0, 0, 0, 0, 60, 0, 12, 0, 1, 0, 80, 0, 114, 0, 111, 0,
     100, 0, 117, 0, 99, 0, 116, 0, 86, 0, 101, 0, 114, 0, 115, 0, 105, 0, 111, 0,
     110, 0, 0, 0, 49, 0, 48, 0, 46, 0, 50, 0, 53, 0, 48, 0, 51, 0, 46, 0,
     57, 0, 46, 0, 48, 0, 0, 0]"

definition res_9_back :: bytes where
  "res_9_back =
    [0, 0, 0, 0, 0, 0, 0, 0, 0, 0, 0, 0, 0, 0, 0, 0, 0, 0, 0, 0,
     0, 0, 0, 0, 0, 0, 0, 0, 0, 0, 0, 0, 84, 1, 0, 0, 0, 0, 0, 0,
     0, 0, 0, 0, 0, 0, 0, 0, 0, 0, 0, 0, 0, 0, 0, 0, 0, 0, 0, 0,
     0, 0, 0, 0, 84, 1, 0, 0, 0, 0, 0, 0, 0, 0, 0, 0, 0, 0, 0, 0,
     0, 0, 0, 0, 0, 0, 0, 0, 0, 0, 0, 0, 0, 0, 0, 0, 0, 0, 0, 0,
     0, 0, 0, 0, 189, 4, 239, 254, 0, 0, 1, 0, 199, 9, 10, 0, 0, 0, 9, 0,
     0, 0, 0, 0, 0, 0, 0, 0, 0, 0, 0, 0, 0, 0, 0, 0, 0, 0, 0, 0,
     0, 0, 0, 0, 0, 0, 0, 0, 0, 0, 0, 0, 0, 0, 0, 0, 244, 0, 0, 0,
     0, 0, 0, 0, 0, 0, 0, 0, 0, 0, 0, 0, 0, 0, 0, 0, 0, 0, 0, 0,
     0, 0, 0, 0, 0, 0, 0, 0, 0, 0, 0, 0, 208, 0, 0, 0, 0, 0, 0, 0,
     0, 0, 0, 0, 0, 0, 0, 0, 0, 0, 0, 0, 0, 0, 0, 0, 0, 0, 0, 0,
     0, 0, 0, 0, 0, 0, 0, 0, 0, 0, 0, 0, 0, 0, 0, 0, 0, 0, 0, 0,
     0, 0, 0, 0, 0, 0, 0, 0, 0, 0, 0, 0, 0, 0, 0, 0, 0, 0, 0, 0,
     0, 0, 0, 0, 0, 0, 0, 0, 0, 0, 0, 0, 0, 0, 0, 0, 0, 0, 0, 0,
     0, 0, 0, 0, 0, 0, 0, 0, 0, 0, 0, 0, 0, 0, 0, 0, 0, 0, 0, 0,
     0, 0, 0, 0, 0, 0, 0, 0, 0, 0, 0, 0, 0, 0, 0, 0, 0, 0, 0, 0,
     0, 0, 0, 0, 0, 0, 0, 0, 0, 0, 0, 0, 0, 0, 0, 0, 0, 0, 0, 0,
     0, 0, 0, 0, 0, 0, 0, 0, 56, 0, 12, 0, 1, 0, 70, 0, 105, 0, 108, 0,
     101, 0, 86, 0, 101, 0, 114, 0, 115, 0, 105, 0, 111, 0, 110, 0, 0, 0, 0, 0,
     49, 0, 48, 0, 46, 0, 50, 0, 53, 0, 48, 0, 51, 0, 46, 0, 57, 0, 46, 0,
     48, 0, 0, 0, 0, 0, 0, 0, 60, 0, 12, 0, 1, 0, 80, 0, 114, 0, 111, 0,
     100, 0, 117, 0, 99, 0, 116, 0, 86, 0, 101, 0, 114, 0, 115, 0, 105, 0, 111, 0,
     110, 0, 0, 0, 49, 0, 48, 0, 46, 0, 50, 0, 53, 0, 48, 0, 51, 0, 46, 0,
     57, 0, 46, 0, 48, 0, 0, 0]"

definition res_8 :: bytes where
  "res_8 =
    [0, 0, 0, 0, 0, 0, 0, 0, 0, 0, 0, 0, 0, 0, 0, 0, 0, 0, 0, 0,
     0, 0, 0, 0, 0, 0, 0, 0, 0, 0, 0, 0, 80, 1, 0, 0, 0, 0, 0, 0,
     0, 0, 0, 0, 0, 0, 0, 0, 0, 0, 0, 0, 0, 0, 0, 0, 0, 0, 0, 0,
     0, 0, 0, 0, 80, 1, 0, 0, 0, 0, 0, 0, 0, 0, 0, 0, 0, 0, 0, 0,
     0, 0, 0, 0, 0, 0, 0, 0, 0, 0, 0, 0, 0, 0, 0, 0, 0, 0, 0, 0,
     0, 0, 0, 0, 189, 4, 239, 254, 0, 0, 1, 0, 199, 9, 10, 0, 0, 0, 8, 0,
     0, 0, 0, 0, 0, 0, 0, 0, 0, 0, 0, 0, 0, 0, 0, 0, 0, 0, 0, 0,
     0, 0, 0, 0, 0, 0, 0, 0, 0, 0, 0, 0, 0, 0, 0, 0, 240, 0, 0, 0,
     0, 0, 0, 0, 0, 0, 0, 0, 0, 0, 0, 0, 0, 0, 0, 0, 0, 0, 0, 0,
     0, 0, 0, 0, 0, 0, 0, 0, 0, 0, 0, 0, 204, 0, 0, 0, 0, 0, 0, 0,
     0, 0, 0, 0, 0, 0, 0, 0, 0, 0, 0, 0, 0, 0, 0, 0, 0, 0, 0, 0,
     0, 0, 0, 0, 0, 0, 0, 0, 0, 0, 0, 0, 0, 0, 0, 0, 0, 0, 0, 0,
     0, 0, 0, 0, 0, 0, 0, 0, 0, 0, 0, 0, 0, 0, 0, 0, 0, 0, 0, 0,
     0, 0, 0, 0, 0, 0, 0, 0, 0, 0, 0, 0, 0, 0, 0, 0, 0, 0, 0, 0,
     0, 0, 0, 0, 0, 0, 0, 0, 0, 0, 0, 0, 0, 0, 0, 0, 0, 0, 0, 0,
     0, 0, 0, 0, 0, 0, 0, 0, 0, 0, 0, 0, 0, 0, 0, 0, 0, 0, 0, 0,
     0, 0, 0, 0, 0, 0, 0, 0, 0, 0, 0, 0, 0, 0, 0, 0, 0, 0, 0, 0,
     0, 0, 0, 0, 0, 0, 0, 0, 56, 0, 12, 0, 1, 0, 70, 0, 105, 0, 108, 0,
     101, 0, 86, 0, 101, 0, 114, 0, 115, 0, 105, 0, 111, 0, 110, 0, 0, 0, 0, 0,
     49, 0, 48, 0, 46, 0, 50, 0, 53, 0, 48, 0, 51, 0, 46, 0, 56, 0, 46, 0,
     48, 0, 0, 0, 60, 0, 12, 0, 1, 0, 80, 0, 114, 0, 111, 0, 100, 0, 117, 0,
     99, 0, 116, 0, 86, 0, 101, 0, 114, 0, 115, 0, 105, 0, 111, 0, 110, 0, 0, 0,
     49, 0, 48, 0, 46, 0, 50, 0, 53, 0, 48, 0, 51, 0, 46, 0, 56, 0, 46, 0,
     48, 0, 0, 0]"



text \<open>
  A file in which the build half-word of the signature block (offset 14) lies inside the
  \<^verbatim>\<open>FileVersion\<close> marker, which starts at offset 4.
\<close>

definition overlapping :: bytes where
  "overlapping =
     VS_FFI_SIGNATURE @ encode_utf16le ''FileVersion'' @ [0, 0]
     @ encode_utf16le ''1.2.9.0'' @ [0, 0]"

definition version :: "int \<Rightarrow> VersionInfo" where
  "version b = \<lparr>major = 10, minor = 2503, build = b, release = 0\<rparr>"

text \<open>The analysed object of a session on one of the files above.\<close>

definition session :: "bytes \<Rightarrow> int \<Rightarrow> VersionInfo option \<Rightarrow> bumper" where
  "session d b nv =
     \<lparr>data = d, ffi_offset = 104, file_version_ls_offset = 116,
      product_version_ls_offset = 124, file_version_string_offset = 380,
      current_version = version b, new_version = nv\<rparr>"

text \<open>The analysed object of a session on \<open>overlapping\<close>.\<close>

definition overlapping_session :: "bytes \<Rightarrow> VersionInfo option \<Rightarrow> bumper" where
  "overlapping_session d nv =
     \<lparr>data = d, ffi_offset = 0, file_version_ls_offset = 12,
      product_version_ls_offset = 20, file_version_string_offset = 28,
      current_version = \<lparr>major = 1, minor = 2, build = 9, release = 0\<rparr>,
      new_version = nv\<rparr>"

section \<open>Facts about the primitives\<close>

lemma find_at_bounds:
  "find_at sub xs k = Some p \<Longrightarrow> k \<le> p \<and> p + length sub \<le> k + length xs"
proof (induction xs arbitrary: k)
  case Nil
  then show ?case by (simp split: if_splits)
next
  case (Cons x xs)
  show ?case
  proof (cases "take (length sub) (x # xs) = sub")
    case True
    then have "length (take (length sub) (x # xs)) = length sub"
      by (rule arg_cong)
    then have "length sub \<le> length (x # xs)"
      by (simp add: min_def split: if_splits)
    with True Cons.prems show ?thesis by simp
  next
    case False
    with Cons.prems have "find_at sub xs (k + 1) = Some p" by simp
    from Cons.IH [OF this] show ?thesis by simp
  qed
qed

lemma find_bounds:
  "find d sub start = Some p \<Longrightarrow> start \<le> p \<and> p + length sub \<le> length d"
  by (auto simp: find_def split: if_splits dest!: find_at_bounds)

lemma overwrite_length: "overwrite d pos bs = Inr d' \<Longrightarrow> length d' = length d"
  by (induction bs arbitrary: d pos) (auto split: if_splits)

lemma encode_utf16le_length: "length (encode_utf16le s) = 2 * length s"
  by (induction s) (simp_all add: encode_utf16le_def)

termination update_all_version_strings_from
proof (relation "measure (\<lambda>(d, old_build, new_build, pos). Suc (length d) - pos)")
  show "wf (measure (\<lambda>(d, old_build, new_build, pos). Suc (length d) - pos))" by simp
next
  fix d old_build new_build pos p d'
  assume f: "find d (encode_utf16le (''.'' @ old_build @ ''.'')) pos = Some p"
    and o: "overwrite d p (encode_utf16le (''.'' @ new_build @ ''.'')) = Inr d'"
  define n where "n = length (encode_utf16le (''.'' @ old_build @ ''.''))"
  have "0 < n" by (simp add: n_def encode_utf16le_length)
  with find_bounds [OF f] have "Suc (length d) - (p + n) < Suc (length d) - pos"
    unfolding n_def by arith
  with overwrite_length [OF o]
  show "((d', old_build, new_build, p + length (encode_utf16le (''.'' @ old_build @ ''.''))),
         (d, old_build, new_build, pos))
        \<in> measure (\<lambda>(d, old_build, new_build, pos). Suc (length d) - pos)"
    by (simp add: n_def)
qed

declare update_all_version_strings_from.simps [simp del]

termination find_positions
proof (relation "measure (\<lambda>(d, cur, old_build, pos). Suc (length d) - pos)")
  show "wf (measure (\<lambda>(d, cur, old_build, pos). Suc (length d) - pos))" by simp
next
  fix d cur old_build pos p
  assume f: "find d (encode_utf16le (version_text cur old_build)) pos = Some p"
  define n where "n = length (encode_utf16le (version_text cur old_build))"
  have "0 < n" by (simp add: n_def encode_utf16le_length version_text_def)
  with find_bounds [OF f] have "Suc (length d) - (p + n) < Suc (length d) - pos"
    unfolding n_def by arith
  then
  show "((d, cur, old_build, p + length (encode_utf16le (version_text cur old_build))),
         (d, cur, old_build, pos))
        \<in> measure (\<lambda>(d, cur, old_build, pos). Suc (length d) - pos)"
    by (simp add: n_def)
qed

declare find_positions.simps [simp del]

lemma struct_offset_nonneg:
  "0 \<le> k \<Longrightarrow> struct_offset d k sz =
     (if int (length d) - k < sz then Inl BufferTooSmall else Inr (nat k))"
  by (simp add: struct_offset_def Let_def)

lemma unpack_from_I_Inr:
  "unpack_from_I d k = Inr v \<Longrightarrow> 0 \<le> k \<Longrightarrow> k + 4 \<le> int (length d)"
  by (auto simp: unpack_from_I_def struct_offset_nonneg split: if_splits)

lemma find_binary_version_Inr:
  assumes "find_binary_version d = Inr (ffi, ls, pls)"
  shows "find d VS_FFI_SIGNATURE 0 = Some ffi \<and> ls = ffi + 12 \<and> pls = ffi + 20
         \<and> ls + 4 \<le> length d"
proof -
  from assms obtain v where f: "find d VS_FFI_SIGNATURE 0 = Some ffi"
    and l: "ls = ffi + 12" and p: "pls = ffi + 20"
    and u: "unpack_from_I d (int (ffi + 4 + 4 + 4)) = Inr v"
    by (auto simp: find_binary_version_def Let_def split: option.splits sum.splits)
  from unpack_from_I_Inr [OF u] have "ffi + 16 \<le> length d" by simp
  with f l p show ?thesis by simp
qed

lemma analyze_Inr:
  assumes "analyze to_int file = Inr s"
  shows "data s = file" and "new_version s = None"
    and "file_version_ls_offset s + 4 \<le> length file"
    and "find file VS_FFI_SIGNATURE 0 = Some (ffi_offset s)"
  using assms
  by (auto simp: analyze_def split: sum.splits prod.splits dest: find_binary_version_Inr)

lemma update_binary_version_out_of_range:
  assumes "new_version s = Some nv" and "65535 < build nv"
    and "file_version_ls_offset s + 4 \<le> length (data s)"
  shows "update_binary_version s = Inl OutOfRange"
proof -
  have "struct_offset (data s) (int (file_version_ls_offset s + 2)) 2
          = Inr (file_version_ls_offset s + 2)"
    using assms(3) by (subst struct_offset_nonneg) auto
  with assms show ?thesis
    by (simp add: update_binary_version_def pack_into_H_def Let_def del: of_nat_add)
qed


lemma find_binary_version_found:
  assumes "find d VS_FFI_SIGNATURE 0 = Some pos" and "pos + 16 \<le> length d"
  shows "find_binary_version d = Inr (pos, pos + 12, pos + 20)"
proof -
  have "struct_offset d (int (pos + 4 + 4)) 4 = Inr (pos + 4 + 4)"
    and "struct_offset d (int (pos + 4 + 4 + 4)) 4 = Inr (pos + 4 + 4 + 4)"
    using assms(2) by (subst struct_offset_nonneg; auto)+
  with assms(1) show ?thesis
    by (simp add: find_binary_version_def unpack_from_I_def Let_def del: of_nat_add)
qed


section \<open>Analysis and the binary half-word\<close>


text \<open>
  Claim C8.  After a successful analysis, a target build above 65535 (given, or reached by
  the automatic increment) makes \<^verbatim>\<open>update_binary_version\<close> fail with \<open>OutOfRange\<close>, the
  \<^verbatim>\<open>struct.error\<close> of packing into the 16-bit field; the session stops there and nothing is
  saved.
\<close>

theorem build_above_16_bits_fails:
  assumes "analyze to_int file = Inr s0"
    and "65535 < build (fst (calculate_new_version s0 new_build))"
  shows "update_binary_version (snd (calculate_new_version s0 new_build)) = Inl OutOfRange
         \<and> bump to_int file new_build dry_run = (Inl OutOfRange, None)"
proof -
  let ?s1 = "snd (calculate_new_version s0 new_build)"
  have nv: "new_version ?s1 = Some (fst (calculate_new_version s0 new_build))"
    by (simp add: calculate_new_version_def Let_def)
  have ls: "file_version_ls_offset ?s1 + 4 \<le> length (data ?s1)"
    using analyze_Inr(1,3) [OF assms(1)] by (simp add: calculate_new_version_def Let_def)
  have "update_binary_version ?s1 = Inl OutOfRange"
    by (rule update_binary_version_out_of_range [OF nv assms(2) ls])
  then show ?thesis using assms(1) by (simp add: bump_def Let_def)
qed

section \<open>The derived version\<close>

text \<open>
  Claim C9.  For every analysed current version and every target build (given, or absent
  for the automatic increment), the new version computed by \<^verbatim>\<open>calculate_new_version\<close> and
  the one computed in \<^verbatim>\<open>ProjectVersionBumper.bump\<close> have the major, minor and release
  components of the current version; the build component is the target (or the current
  build plus one), and the current version itself is left as it was.
\<close>

theorem new_version_keeps_other_components:
  "major (fst (calculate_new_version s new_build)) = major (current_version s)
   \<and> minor (fst (calculate_new_version s new_build)) = minor (current_version s)
   \<and> release (fst (calculate_new_version s new_build)) = release (current_version s)
   \<and> build (fst (calculate_new_version s new_build))
       = (case new_build of None \<Rightarrow> build (current_version s) + 1 | Some b \<Rightarrow> b)
   \<and> new_version (snd (calculate_new_version s new_build))
       = Some (fst (calculate_new_version s new_build))
   \<and> current_version (snd (calculate_new_version s new_build)) = current_version s
   \<and> major (project_new_version cur new_build) = major cur
   \<and> minor (project_new_version cur new_build) = minor cur
   \<and> release (project_new_version cur new_build) = release cur
   \<and> build (project_new_version cur new_build)
       = (case new_build of None \<Rightarrow> build cur + 1 | Some b \<Rightarrow> b)"
  by (simp add: calculate_new_version_def project_new_version_def Let_def)

section \<open>Half-words and length fields\<close>


lemma pack_into_H_Inr:
  assumes "pack_into_H d (int i) v = Inr d'"
  shows "i + 2 \<le> length d" and "0 \<le> v" and "v \<le> 65535"
    and "d' = d[i := word_of_int (v mod 256), i + 1 := word_of_int (v div 256)]"
  using assms
  by (auto simp: pack_into_H_def struct_offset_nonneg split: if_splits)

lemma pack_into_H_length: "pack_into_H d (int i) v = Inr d' \<Longrightarrow> length d' = length d"
  by (auto dest: pack_into_H_Inr(4))

lemma pack_into_H_frame:
  "pack_into_H d (int i) v = Inr d' \<Longrightarrow> j \<noteq> i \<Longrightarrow> j \<noteq> i + 1 \<Longrightarrow> d' ! j = d ! j"
  by (auto dest!: pack_into_H_Inr(4))



lemma adjust_field_length: "adjust_field d offset delta = Inr d' \<Longrightarrow> length d' = length d"
  by (auto simp: adjust_field_def Let_def split: if_splits dest: pack_into_H_length)




lemma adjust_fields_length: "adjust_fields d fs = Inr d' \<Longrightarrow> length d' = length d"
  by (induction d fs rule: adjust_fields.induct)
     (auto split: sum.splits dest: adjust_field_length)




section \<open>The same-width patch\<close>

lemma find_at_occurrence:
  "find_at sub xs k = Some p \<Longrightarrow> take (length sub) (drop (p - k) xs) = sub"
proof (induction xs arbitrary: k)
  case Nil
  then show ?case by (simp split: if_splits)
next
  case (Cons x xs)
  show ?case
  proof (cases "take (length sub) (x # xs) = sub")
    case True
    with Cons.prems show ?thesis by simp
  next
    case False
    with Cons.prems have f: "find_at sub xs (k + 1) = Some p" by simp
    from find_at_bounds [OF f] have "p - k = Suc (p - (k + 1))" by arith
    with Cons.IH [OF f] show ?thesis by simp
  qed
qed

lemma find_occurrence:
  "find d sub start = Some p \<Longrightarrow> take (length sub) (drop p d) = sub"
proof -
  assume a: "find d sub start = Some p"
  then have f: "find_at sub (drop start d) start = Some p" and "start \<le> length d"
    by (auto simp: find_def split: if_splits)
  from find_at_bounds [OF f] have "start \<le> p" by simp
  with find_at_occurrence [OF f] show ?thesis by simp
qed

lemma overwrite_Inr:
  "overwrite d p bs = Inr d' \<Longrightarrow>
     d' = take p d @ bs @ drop (p + length bs) d \<and> (bs \<noteq> [] \<longrightarrow> p + length bs \<le> length d)"
proof (induction bs arbitrary: d p)
  case Nil
  then show ?case by simp
next
  case (Cons b bs)
  from Cons.prems have lt: "p < length d"
    and r: "overwrite (d[p := b]) (p + 1) bs = Inr d'"
    by (auto split: if_splits)
  from Cons.IH [OF r]
  have eq: "d' = take (p + 1) (d[p := b]) @ bs @ drop (p + 1 + length bs) (d[p := b])"
    and le: "bs \<noteq> [] \<Longrightarrow> p + 1 + length bs \<le> length d"
    by simp_all
  have "take (p + 1) (d[p := b]) = take p d @ [b]"
    using lt by (simp add: take_Suc_conv_app_nth)
  with eq have "d' = take p d @ (b # bs) @ drop (p + length (b # bs)) d" by simp
  moreover have "p + length (b # bs) \<le> length d"
    using le lt by (cases bs) auto
  ultimately show ?case by blast
qed

lemma write_chars_length: "write_chars d off cs = Inr d' \<Longrightarrow> length d' = length d"
  by (induction cs arbitrary: d off) (auto split: sum.splits dest: pack_into_H_length)

lemma write_chars_frame:
  "write_chars d off cs = Inr d' \<Longrightarrow> d' ! i \<noteq> d ! i \<Longrightarrow>
     off \<le> i \<and> i < off + 2 * length cs"
proof (induction cs arbitrary: d off)
  case Nil
  then show ?case by simp
next
  case (Cons c cs)
  from Cons.prems(1) obtain d1 where p: "pack_into_H d (int off) (of_char c) = Inr d1"
    and r: "write_chars d1 (off + 2) cs = Inr d'"
    by (auto split: sum.splits)
  show ?case
  proof (cases "d1 ! i = d ! i")
    case True
    with Cons.prems(2) have "d' ! i \<noteq> d1 ! i" by simp
    from Cons.IH [OF r this] show ?thesis by simp
  next
    case False
    with pack_into_H_frame [OF p, of i] have "i = off \<or> i = off + 1" by auto
    then show ?thesis by auto
  qed
qed

lemma sweep_same_width:
  assumes "update_all_version_strings_from d old_build new_build pos = Inr out"
    and "length new_build = length old_build"
  shows "length out = length d
         \<and> (\<forall>i. out ! i \<noteq> d ! i \<longrightarrow>
               (\<exists>p. pos \<le> p \<and> p \<le> i
                    \<and> i < p + length (encode_utf16le (''.'' @ old_build @ ''.''))
                    \<and> take (length (encode_utf16le (''.'' @ old_build @ ''.''))) (drop p d)
                        = encode_utf16le (''.'' @ old_build @ ''.'')
                    \<and> take (length (encode_utf16le (''.'' @ new_build @ ''.''))) (drop p out)
                        = encode_utf16le (''.'' @ new_build @ ''.'')))"
  using assms
proof (induction d old_build new_build pos rule: update_all_version_strings_from.induct)
  case (1 d old_build new_build pos)
  define po where "po = encode_utf16le (''.'' @ old_build @ ''.'')"
  define pn where "pn = encode_utf16le (''.'' @ new_build @ ''.'')"
  have n: "length pn = length po"
    using "1.prems"(2) by (simp add: po_def pn_def encode_utf16le_length)
  show ?case
  proof (cases "find d po pos")
    case None
    with "1.prems"(1) have "out = d"
      by (simp add: po_def update_all_version_strings_from.simps [of d])
    then show ?thesis by simp
  next
    case (Some p)
    with "1.prems"(1) obtain d' where ov: "overwrite d p pn = Inr d'"
      and rec: "update_all_version_strings_from d' old_build new_build (p + length po) = Inr out"
      by (auto simp: po_def pn_def update_all_version_strings_from.simps [of d]
               split: sum.splits)
    note fb = find_bounds [OF Some] and fo = find_occurrence [OF Some]
    from overwrite_Inr [OF ov] have d': "d' = take p d @ pn @ drop (p + length pn) d"
      by simp
    have len': "length d' = length d" using fb n by (simp add: d')
    from "1.IH" [OF Some [unfolded po_def] ov [unfolded pn_def] rec [unfolded po_def] "1.prems"(2)]
    have lo: "length out = length d'"
      and ih: "\<And>i. out ! i \<noteq> d' ! i \<Longrightarrow>
                 \<exists>q. p + length po \<le> q \<and> q \<le> i \<and> i < q + length po
                    \<and> take (length po) (drop q d') = po
                    \<and> take (length pn) (drop q out) = pn"
      by (auto simp: po_def pn_def)
    have below: "out ! j = d' ! j" if "j < p + length po" for j
      using ih [of j] that by force
    have tk: "take (p + length po) out = take (p + length po) d'"
      by (rule nth_take_lemma) (use lo len' fb below in auto)
    have occ_new: "take (length pn) (drop p out) = pn"
    proof -
      have "take (length pn) (drop p out) = drop p (take (p + length po) out)"
        by (simp add: drop_take n)
      also have "\<dots> = drop p (take (p + length po) d')" by (simp add: tk)
      also have "\<dots> = pn" using fb n by (simp add: d')
      finally show ?thesis .
    qed
    have "\<exists>q. pos \<le> q \<and> q \<le> i \<and> i < q + length po
              \<and> take (length po) (drop q d) = po \<and> take (length pn) (drop q out) = pn"
      if neq: "out ! i \<noteq> d ! i" for i
    proof (cases "out ! i = d' ! i")
      case True
      with neq have c: "d' ! i \<noteq> d ! i" by simp
      have "p \<le> i \<and> i < p + length po"
      proof (rule ccontr)
        assume "\<not> (p \<le> i \<and> i < p + length po)"
        then have "d' ! i = d ! i"
          using fb n by (auto simp: d' nth_append)
        with c show False by simp
      qed
      with fb fo occ_new show ?thesis by auto
    next
      case False
      from ih [OF False] obtain q where q: "p + length po \<le> q" "q \<le> i" "i < q + length po"
        "take (length po) (drop q d') = po" "take (length pn) (drop q out) = pn"
        by blast
      have "drop q d' = drop q d" using q(1) fb n by (simp add: d')
      with q fb show ?thesis by (intro exI [of _ q]) auto
    qed
    with lo len' show ?thesis by (simp add: po_def pn_def)
  qed
qed

lemma update_binary_version_Inr:
  assumes "update_binary_version s = Inr s1"
  shows "\<exists>nv d1. new_version s = Some nv
           \<and> pack_into_H (data s) (int (file_version_ls_offset s + 2)) (build nv) = Inr d1
           \<and> s1 = s\<lparr>data := d1\<rparr>"
  using assms
  by (auto simp: update_binary_version_def Let_def split: option.splits if_splits sum.splits)

text \<open>
  Claim C5, as the code has it.  When the new build has as many decimal digits as the old
  one and both updates return, the buffer keeps its length, and every byte that differs
  from the input is one of: the two bytes of the binary build half-word; a byte of the
  build digits of the version text (from the offset the scan finds, twice the digit count
  long); or a byte inside an occurrence of \<^verbatim>\<open>"." + old + "."\<close> in UTF-16 that the sweep
  of \<^verbatim>\<open>_update_all_version_strings\<close> has rewritten to \<^verbatim>\<open>"." + new + "."\<close>.
\<close>

theorem same_width_patch_frame:
  assumes "new_version s = Some nv"
    and "length (str_int (build nv)) = length (str_int (build (current_version s)))"
    and "update_binary_version s = Inr s1"
    and "update_string_version s1 = Inr (ok, s2)"
  shows "length (data s2) = length (data s)
     \<and> (\<forall>i. data s2 ! i \<noteq> data s ! i \<longrightarrow>
          i = file_version_ls_offset s + 2 \<or> i = file_version_ls_offset s + 3
        \<or> (\<exists>bso. locate_build (data s1) (file_version_string_offset s) 0 = Some bso
              \<and> bso \<le> i \<and> i < bso + 2 * length (str_int (build nv)))
        \<or> (\<exists>bso mid p.
              locate_build (data s1) (file_version_string_offset s) 0 = Some bso
              \<and> write_chars (data s1) bso (str_int (build nv)) = Inr mid
              \<and> p \<le> i
              \<and> i < p + length (encode_utf16le (''.'' @ str_int (build (current_version s)) @ ''.''))
              \<and> take (length (encode_utf16le (''.'' @ str_int (build (current_version s)) @ ''.'')))
                   (drop p mid)
                  = encode_utf16le (''.'' @ str_int (build (current_version s)) @ ''.'')
              \<and> take (length (encode_utf16le (''.'' @ str_int (build nv) @ ''.'')))
                   (drop p (data s2))
                  = encode_utf16le (''.'' @ str_int (build nv) @ ''.'')))"
proof -
  define old where "old = str_int (build (current_version s))"
  define new where "new = str_int (build nv)"
  from update_binary_version_Inr [OF assms(3)] assms(1) obtain d1
    where pk: "pack_into_H (data s) (int (file_version_ls_offset s + 2)) (build nv) = Inr d1"
      and s1: "s1 = s\<lparr>data := d1\<rparr>"
    by auto
  have l1: "length d1 = length (data s)" by (rule pack_into_H_length [OF pk])
  have f1: "i = file_version_ls_offset s + 2 \<or> i = file_version_ls_offset s + 3"
    if "d1 ! i \<noteq> data s ! i" for i
  proof (rule ccontr)
    assume "\<not> (i = file_version_ls_offset s + 2 \<or> i = file_version_ls_offset s + 3)"
    then have "i \<noteq> file_version_ls_offset s + 2" "i \<noteq> file_version_ls_offset s + 2 + 1"
      by simp_all
    from pack_into_H_frame [OF pk this] that show False by simp
  qed
  from assms(4) assms(1,2) have same:
    "update_string_version_same_length s1 old new = Inr (ok, s2)"
    by (simp add: update_string_version_def s1 Let_def old_def new_def)
  show ?thesis
  proof (cases "locate_build d1 (file_version_string_offset s) 0")
    case None
    with same have "s2 = s1" by (simp add: update_string_version_same_length_def s1)
    with l1 f1 show ?thesis by (auto simp: s1)
  next
    case (Some bso)
    with same obtain mid out where w: "write_chars d1 bso new = Inr mid"
      and sw: "update_all_version_strings_from mid old new 0 = Inr out"
      and s2: "data s2 = out"
      by (auto simp: update_string_version_same_length_def s1 update_all_version_strings_def
               split: sum.splits)
    note lw = write_chars_length [OF w]
    from sweep_same_width [OF sw] assms(2)
    have lo: "length out = length mid"
      and fo: "\<And>i. out ! i \<noteq> mid ! i \<Longrightarrow>
                \<exists>p. p \<le> i \<and> i < p + length (encode_utf16le (''.'' @ old @ ''.''))
                   \<and> take (length (encode_utf16le (''.'' @ old @ ''.''))) (drop p mid)
                       = encode_utf16le (''.'' @ old @ ''.'')
                   \<and> take (length (encode_utf16le (''.'' @ new @ ''.''))) (drop p out)
                       = encode_utf16le (''.'' @ new @ ''.'')"
      by (auto simp: old_def new_def)
    have "i = file_version_ls_offset s + 2 \<or> i = file_version_ls_offset s + 3
        \<or> (bso \<le> i \<and> i < bso + 2 * length new)
        \<or> (\<exists>p. p \<le> i \<and> i < p + length (encode_utf16le (''.'' @ old @ ''.''))
                   \<and> take (length (encode_utf16le (''.'' @ old @ ''.''))) (drop p mid)
                       = encode_utf16le (''.'' @ old @ ''.'')
                   \<and> take (length (encode_utf16le (''.'' @ new @ ''.''))) (drop p out)
                       = encode_utf16le (''.'' @ new @ ''.''))"
      if neq: "out ! i \<noteq> data s ! i" for i
    proof (cases "out ! i = mid ! i")
      case False
      from fo [OF False] show ?thesis by blast
    next
      case True
      show ?thesis
      proof (cases "mid ! i = d1 ! i")
        case False
        from write_chars_frame [OF w False] show ?thesis by simp
      next
        case m: True
        with True neq have "d1 ! i \<noteq> data s ! i" by simp
        from f1 [OF this] show ?thesis by blast
      qed
    qed
    then show ?thesis
      using lo lw l1 Some w unfolding s2 s1 old_def new_def by auto
  qed
qed

section \<open>The resizing patch\<close>

lemma locate_build_bound: "locate_build d i c = Some b \<Longrightarrow> b \<le> length d"
proof (induction d i c rule: locate_build.induct)
  case (1 d i dot_count)
  show ?case
  proof (cases "i + 1 < length d")
    case False
    with "1.prems" show ?thesis by (simp add: locate_build.simps [of d i])
  next
    case True
    show ?thesis
    proof (cases "u16_at d i = 0")
      case True
      with \<open>i + 1 < length d\<close> "1.prems" show ?thesis
        by (simp add: locate_build.simps [of d i])
    next
      case nz: False
      show ?thesis
      proof (cases "u16_at d i = 46")
        case dot: True
        show ?thesis
        proof (cases "dot_count + 1 = 2")
          case True
          with dot nz \<open>i + 1 < length d\<close> "1.prems" show ?thesis
            by (simp add: locate_build.simps [of d i])
        next
          case False
          with dot nz \<open>i + 1 < length d\<close> "1.prems"
          have "locate_build d (i + 2) (dot_count + 1) = Some b"
            by (simp add: locate_build.simps [of d i])
          from "1.IH"(1) [OF \<open>i + 1 < length d\<close> refl nz dot False this] show ?thesis .
        qed
      next
        case False
        with nz \<open>i + 1 < length d\<close> "1.prems"
        have "locate_build d (i + 2) dot_count = Some b"
          by (simp add: locate_build.simps [of d i])
        from "1.IH"(2) [OF \<open>i + 1 < length d\<close> refl nz False this] show ?thesis .
      qed
    qed
  qed
qed

lemma scan_build_end_bound: "j \<le> length d \<Longrightarrow> scan_build_end d j \<le> length d"
proof (induction d j rule: scan_build_end.induct)
  case (1 d j)
  show ?case
  proof (cases "j + 1 < length d \<and> \<not> (u16_at d j = 46 \<or> u16_at d j = 0)")
    case True
    then have "scan_build_end d j = scan_build_end d (j + 2)"
      by (simp add: scan_build_end.simps [of d j])
    moreover have "scan_build_end d (j + 2) \<le> length d"
      using True by (intro "1.IH") auto
    ultimately show ?thesis by simp
  next
    case False
    then have "scan_build_end d j = j"
      by (auto simp: scan_build_end.simps [of d j])
    with "1.prems" show ?thesis by simp
  qed
qed

lemma find_positions_spaced:
  "sorted_wrt (\<lambda>p q. p + length (encode_utf16le (version_text cur old_build)) \<le> q)
     (find_positions d cur old_build pos)
   \<and> (\<forall>p \<in> set (find_positions d cur old_build pos).
         pos \<le> p \<and> p + length (encode_utf16le (version_text cur old_build)) \<le> length d)"
proof (induction d cur old_build pos rule: find_positions.induct)
  case (1 d cur old_build pos)
  define pat where "pat = encode_utf16le (version_text cur old_build)"
  show ?case
  proof (cases "find d pat pos")
    case None
    then show ?thesis by (simp add: pat_def find_positions.simps [of d])
  next
    case (Some p)
    then have eq: "find_positions d cur old_build pos
                     = p # find_positions d cur old_build (p + length pat)"
      by (simp add: pat_def find_positions.simps [of d cur old_build pos])
    from "1.IH" [OF Some [unfolded pat_def]] find_bounds [OF Some]
    show ?thesis unfolding eq pat_def by auto
  qed
qed

lemma sweep_back_length:
  fixes np :: bytes
  assumes "sorted_wrt (\<lambda>p q. p + n \<le> q) ps" and "\<forall>p \<in> set ps. p + n \<le> length d"
  shows "int (length (foldr (\<lambda>pos acc. take pos acc @ np @ drop (pos + n) acc) ps d))
           = int (length d) + int (length ps) * (int (length np) - int n)
       \<and> (\<forall>p. (\<forall>q \<in> set ps. p + n \<le> q) \<and> p + n \<le> length d \<longrightarrow>
              p + n \<le> length (foldr (\<lambda>pos acc. take pos acc @ np @ drop (pos + n) acc) ps d))"
  using assms
proof (induction ps)
  case Nil
  then show ?case by simp
next
  case (Cons q ps)
  let ?f = "\<lambda>pos acc. take pos acc @ np @ drop (pos + n) acc"
  let ?X = "foldr ?f ps d"
  from Cons.prems have srt: "sorted_wrt (\<lambda>p q. p + n \<le> q) ps"
    and bd: "\<forall>p \<in> set ps. p + n \<le> length d"
    and q1: "\<forall>r \<in> set ps. q + n \<le> r" and q2: "q + n \<le> length d"
    by simp_all
  from Cons.IH [OF srt bd]
  have lx: "int (length ?X) = int (length d) + int (length ps) * (int (length np) - int n)"
    and bx: "\<And>p. (\<forall>r \<in> set ps. p + n \<le> r) \<Longrightarrow> p + n \<le> length d \<Longrightarrow> p + n \<le> length ?X"
    by blast+
  from bx [OF q1 q2] have qx: "q + n \<le> length ?X" .
  have "length (take q ?X) = q" and "length (drop (q + n) ?X) = length ?X - (q + n)"
    using qx by simp_all
  then have "int (length (?f q ?X)) = int (length ?X) + (int (length np) - int n)"
    using qx by simp
  then have l: "int (length (foldr ?f (q # ps) d))
      = int (length d) + int (length (q # ps)) * (int (length np) - int n)"
    by (simp add: lx algebra_simps)
  have "p + n \<le> length (foldr ?f (q # ps) d)"
    if "\<forall>r \<in> set (q # ps). p + n \<le> r" for p
  proof -
    from that have "p + n \<le> q" by simp
    moreover have "length (take q ?X) = q" using qx by simp
    then have "q \<le> length (?f q ?X)" by simp
    ultimately show ?thesis by simp
  qed
  with l show ?case by blast
qed

lemma aligned_ge: "(b :: int) \<le> ((b + 3) div 4) * 4"
  by presburger

lemma slice_index_le: "slice_index d k \<le> length d"
  by (auto simp: slice_index_def max_def)

lemma insert_padding_length:
  "0 \<le> pad \<Longrightarrow> int (length (insert_padding d k pad)) = int (length d) + pad"
  using slice_index_le [of d k] by (auto simp: insert_padding_def min_def)

lemma resize_build_length:
  assumes r: "resize_build s old new len_diff = Inr (Some d3)"
    and lb: "locate_build (data s) (file_version_string_offset s) 0 = Some bso"
    and sc: "scan_build_end (data s) bso = bso + 2 * length old"
    and ld: "len_diff = int (length new) - int (length old)"
  shows "int (length d3) = int (length (data s)) + ((len_diff * 2 + 3) div 4) * 4"
proof -
  define bd where "bd = len_diff * 2"
  define al where "al = ((bd + 3) div 4) * 4"
  define d1 where "d1 = splice_build (data s) bso (scan_build_end (data s) bso) new"
  from r lb obtain e k where
    u: "update_length_fields bd al e (insert_padding d1 k (al - bd)) = Inr d3"
    unfolding resize_build_def Let_def bd_def al_def d1_def
    by (auto split: option.splits sum.splits)
  have b1: "bso \<le> length (data s)" by (rule locate_build_bound [OF lb])
  from scan_build_end_bound [OF b1] sc have b2: "bso + 2 * length old \<le> length (data s)"
    by simp
  have l1: "int (length d1) = int (length (data s)) + bd"
    using b1 b2 by (simp add: d1_def splice_build_def sc encode_utf16le_length bd_def ld)
  have ge: "0 \<le> al - bd" using aligned_ge [of bd] by (simp add: al_def)
  from u have "length d3 = length (insert_padding d1 k (al - bd))"
    by (simp add: update_length_fields_def adjust_fields_length)
  with l1 insert_padding_length [OF ge, of d1 k] show ?thesis by (simp add: al_def bd_def)
qed


lemma sweep_after_resize_length:
  "int (length (update_all_version_strings_with_length_change d cur nv old new))
     = int (length d)
       + (int (length (encode_utf16le (version_text nv new)))
           - int (length (encode_utf16le (version_text cur old))))
         * int (length (tl (find_positions d cur old 0)))"
proof -
  define n where "n = length (encode_utf16le (version_text cur old))"
  define ps where "ps = find_positions d cur old 0"
  from find_positions_spaced [of cur old d 0]
  have s: "sorted_wrt (\<lambda>p q. p + n \<le> q) ps" and b: "\<forall>p \<in> set ps. p + n \<le> length d"
    by (simp_all add: n_def ps_def)
  have s': "sorted_wrt (\<lambda>p q. p + n \<le> q) (tl ps)" using s by (cases ps) simp_all
  have b': "\<forall>p \<in> set (tl ps). p + n \<le> length d" using b by (cases ps) simp_all
  from sweep_back_length [OF s' b', of "encode_utf16le (version_text nv new)"]
  show ?thesis
    by (simp add: update_all_version_strings_with_length_change_def Let_def n_def ps_def
          algebra_simps)
qed

lemma resize_session:
  assumes nv: "new_version s = Some nv"
    and resizing: "length (str_int (build nv)) \<noteq> length (str_int (build (current_version s)))"
    and lb: "locate_build (data s) (file_version_string_offset s) 0 = Some bso"
    and canonical: "scan_build_end (data s) bso
                      = bso + 2 * length (str_int (build (current_version s)))"
    and ok: "update_string_version s = Inr (True, s')"
  shows "\<exists>d3. resize_build s (str_int (build (current_version s))) (str_int (build nv))
                (int (length (str_int (build nv)))
                  - int (length (str_int (build (current_version s))))) = Inr (Some d3)
          \<and> int (length d3)
              = int (length (data s))
                + ((2 * (int (length (str_int (build nv)))
                          - int (length (str_int (build (current_version s))))) + 3) div 4) * 4
          \<and> data s' = update_all_version_strings_with_length_change d3 (current_version s) nv
                         (str_int (build (current_version s))) (str_int (build nv))"
proof -
  define old where "old = str_int (build (current_version s))"
  define new where "new = str_int (build nv)"
  define ld where "ld = int (length new) - int (length old)"
  have ne: "ld \<noteq> 0" using resizing by (simp add: ld_def old_def new_def)
  from ok nv ne have dl: "update_string_version_diff_length s nv old new ld = Inr (True, s')"
    by (simp add: update_string_version_def Let_def old_def new_def ld_def)
  then obtain d3 where r: "resize_build s old new ld = Inr (Some d3)"
    and s': "data s' = update_all_version_strings_with_length_change d3 (current_version s)
                         nv old new"
    by (auto simp: update_string_version_diff_length_def split: sum.splits option.splits)
  from resize_build_length [OF r lb canonical [folded old_def] ld_def]
  have "int (length d3) = int (length (data s)) + ((2 * ld + 3) div 4) * 4"
    by (simp add: mult.commute)
  with r s' show ?thesis unfolding old_def new_def ld_def by blast
qed


lemma str_int_9_10: "length (str_int 9) = 1" "length (str_int 10) = 2"
  by (simp_all add: str_int_def digits.simps)

text \<open>
  Claim C3, as the code has it.  Patch build 9 to 10 (state \<open>s\<close>, result \<open>s'\<close>) and then the
  result back to 9 (state \<open>t\<close> on a buffer as long as that of \<open>s'\<close>, result \<open>t'\<close>), the digits
  in the buffer being those of the build each time and neither sweep finding more than one
  occurrence to look at.  The grow adds four bytes (two digits bytes, two padding bytes) and
  the shrink adds none (it removes two digit bytes and inserts two padding bytes), so the
  final buffer is four bytes longer than the original and differs from it.
\<close>

theorem grow_then_shrink_length:
  assumes g_nv: "new_version s = Some nv"
    and g_cur: "build (current_version s) = 9" and g_new: "build nv = 10"
    and g_lb: "locate_build (data s) (file_version_string_offset s) 0 = Some bso"
    and g_canonical: "scan_build_end (data s) bso = bso + 2"
    and g_ok: "update_string_version s = Inr (True, s')"
    and g_resize: "resize_build s (str_int 9) (str_int 10) 1 = Inr (Some d3)"
    and g_sweep: "length (find_positions d3 (current_version s) (str_int 9) 0) \<le> 1"
    and again: "length (data t) = length (data s')"
    and s_nv: "new_version t = Some nt"
    and s_cur: "build (current_version t) = 10" and s_new: "build nt = 9"
    and s_lb: "locate_build (data t) (file_version_string_offset t) 0 = Some bso'"
    and s_canonical: "scan_build_end (data t) bso' = bso' + 4"
    and s_ok: "update_string_version t = Inr (True, t')"
    and s_resize: "resize_build t (str_int 10) (str_int 9) (- 1) = Inr (Some e3)"
    and s_sweep: "length (find_positions e3 (current_version t) (str_int 10) 0) \<le> 1"
  shows "length (data s') = length (data s) + 4
       \<and> length (data t') = length (data s) + 4
       \<and> data t' \<noteq> data s"
proof -
  have tl0: "length (tl ps) = 0" if "length ps \<le> 1" for ps :: "nat list"
    using that by (cases ps) simp_all
  from resize_session [OF g_nv _ g_lb _ g_ok] g_resize
  have "int (length d3) = int (length (data s)) + 4"
    and "data s' = update_all_version_strings_with_length_change d3 (current_version s) nv
                     (str_int 9) (str_int 10)"
    by (simp_all add: g_cur g_new str_int_9_10 g_canonical)
  with tl0 [OF g_sweep] have grow: "int (length (data s')) = int (length (data s)) + 4"
    by (simp add: sweep_after_resize_length)
  from resize_session [OF s_nv _ s_lb _ s_ok] s_resize
  have "int (length e3) = int (length (data t))"
    and "data t' = update_all_version_strings_with_length_change e3 (current_version t) nt
                     (str_int 10) (str_int 9)"
    by (simp_all add: s_cur s_new str_int_9_10 s_canonical)
  with tl0 [OF s_sweep] have "int (length (data t')) = int (length (data t))"
    by (simp add: sweep_after_resize_length)
  with grow again have "length (data s') = length (data s) + 4"
    and "length (data t') = length (data s) + 4"
    by simp_all
  then show ?thesis by auto
qed

section \<open>Evaluation of the concrete sessions\<close>

lemma replicate_numeral: "replicate (numeral k) x = x # replicate (pred_numeral k) x"
  by (simp add: numeral_eq_Suc)

lemmas scan_simps = Let_def u16_at_def locate_build.simps scan_build_end.simps
  skip_padding.simps read_version_chars.simps

lemmas resize_simps = resize_build_def find_def encode_utf16le_def unpack_from_H_def
  struct_offset_def scan_simps splice_build_def insert_padding_def slice_index_def
  update_length_fields_def length_fields_def adjust_field_def pack_into_H_def
  replicate_numeral

lemma session_simps:
  "data (session d b nv) = d"
  "file_version_ls_offset (session d b nv) = 116"
  "file_version_string_offset (session d b nv) = 380"
  "current_version (session d b nv) = version b"
  "new_version (session d b nv) = nv"
  "(session d b nv)\<lparr>data := d'\<rparr> = session d' b nv"
  "(session d b nv)\<lparr>new_version := nv'\<rparr> = session d b nv'"
  "major (version b) = 10" "minor (version b) = 2503" "build (version b) = b"
  "release (version b) = 0"
  by (simp_all add: session_def version_def)

lemma str_int_values:
  "str_int 8 = ''8''" "str_int 9 = ''9''" "str_int 10 = ''10''"
  "str_int 2503 = ''2503''" "str_int 0 = ''0''"
  by (simp_all add: str_int_def digits.simps)

lemma calculate_session:
  "snd (calculate_new_version (session d b None) (Some b')) = session d b (Some (version b'))"
  by (simp add: calculate_new_version_def session_def version_def Let_def)

subsection \<open>The analysis of the three files\<close>

lemma parse_9:
  "from_string ascii_int [49, 48, 46, 50, 53, 48, 51, 46, 57, 46, 48] = Inr (version 9)"
  by (simp add: from_string_def ascii_int_def is_space_def version_def)

lemma parse_10:
  "from_string ascii_int [49, 48, 46, 50, 53, 48, 51, 46, 49, 48, 46, 48] = Inr (version 10)"
  by (simp add: from_string_def ascii_int_def is_space_def version_def)

lemma analyze_session:
  assumes "find d VS_FFI_SIGNATURE 0 = Some 104" and "120 \<le> length d"
    and "find d (encode_utf16le ''FileVersion'') 0 = Some 354"
    and "skip_padding d 378 = 380"
    and "from_string ascii_int (read_version_chars d 380) = Inr (version b)"
  shows "analyze ascii_int d = Inr (session d b None)"
proof -
  have "find_binary_version d = Inr (104, 116, 124)"
    using find_binary_version_found [OF assms(1)] assms(2) by simp
  moreover have "find_string_version ascii_int d = Inr (380, version b)"
    using assms(3-5) by (simp add: find_string_version_def encode_utf16le_length Let_def)
  ultimately show ?thesis by (simp add: analyze_def session_def)
qed

lemma analyze_res_9: "analyze ascii_int res_9 = Inr (session res_9 9 None)"
proof (rule analyze_session)
  show "find res_9 VS_FFI_SIGNATURE 0 = Some 104"
    by (simp add: find_def VS_FFI_SIGNATURE_def res_9_def)
  show "120 \<le> length res_9" by (simp add: res_9_def)
  show "find res_9 (encode_utf16le ''FileVersion'') 0 = Some 354"
    by (simp add: find_def encode_utf16le_def res_9_def)
  show "skip_padding res_9 378 = 380" by (simp add: scan_simps res_9_def)
  have "read_version_chars res_9 380 = [49, 48, 46, 50, 53, 48, 51, 46, 57, 46, 48]"
    by (simp add: scan_simps res_9_def)
  then show "from_string ascii_int (read_version_chars res_9 380) = Inr (version 9)"
    by (simp add: parse_9)
qed

lemma analyze_res_9_grown: "analyze ascii_int res_9_grown = Inr (session res_9_grown 10 None)"
proof (rule analyze_session)
  show "find res_9_grown VS_FFI_SIGNATURE 0 = Some 104"
    by (simp add: find_def VS_FFI_SIGNATURE_def res_9_grown_def)
  show "120 \<le> length res_9_grown" by (simp add: res_9_grown_def)
  show "find res_9_grown (encode_utf16le ''FileVersion'') 0 = Some 354"
    by (simp add: find_def encode_utf16le_def res_9_grown_def)
  show "skip_padding res_9_grown 378 = 380" by (simp add: scan_simps res_9_grown_def)
  have "read_version_chars res_9_grown 380
          = [49, 48, 46, 50, 53, 48, 51, 46, 49, 48, 46, 48]"
    by (simp add: scan_simps res_9_grown_def)
  then show "from_string ascii_int (read_version_chars res_9_grown 380) = Inr (version 10)"
    by (simp add: parse_10)
qed


subsection \<open>The binary half-word\<close>

lemma binary_session:
  assumes "120 \<le> length d" and "0 \<le> b'" and "b' < 256"
  shows "update_binary_version (session d b (Some (version b')))
           = Inr (session (d[118 := word_of_int b', 119 := 0]) b (Some (version b')))"
proof -
  have "struct_offset d 118 2 = Inr 118"
    using assms(1) by (simp add: struct_offset_def Let_def)
  moreover have "b' mod 256 = b'" and "b' div 256 = 0" using assms(2,3) by simp_all
  ultimately show ?thesis
    using assms
    by (simp add: update_binary_version_def session_simps pack_into_H_def Let_def)
qed


lemma bin_res_9_10:
  "update_binary_version (session res_9 9 (Some (version 10)))
     = Inr (session (res_9[118 := 10]) 9 (Some (version 10)))"
  using binary_session [of res_9 10 9] by (simp add: res_9_def)

lemma bin_res_9_8:
  "update_binary_version (session res_9 9 (Some (version 8)))
     = Inr (session (res_9[118 := 8]) 9 (Some (version 8)))"
  using binary_session [of res_9 8 9] by (simp add: res_9_def)

lemma bin_res_9_grown_9:
  "update_binary_version (session res_9_grown 10 (Some (version 9)))
     = Inr (session (res_9_grown[118 := 9]) 10 (Some (version 9)))"
  using binary_session [of res_9_grown 9 10] by (simp add: res_9_grown_def)


subsection \<open>The text\<close>

lemma string_session_resize:
  assumes "length (str_int b') \<noteq> length (str_int b)"
    and "resize_build (session d b (Some (version b'))) (str_int b) (str_int b')
           (int (length (str_int b')) - int (length (str_int b))) = Inr (Some d3)"
  shows "update_string_version (session d b (Some (version b')))
           = Inr (True, session (update_all_version_strings_with_length_change d3
                                   (version b) (version b') (str_int b) (str_int b'))
                          b (Some (version b')))"
  using assms
  by (simp add: update_string_version_def update_string_version_diff_length_def
        session_simps Let_def)

lemma bump_session:
  assumes "analyze ascii_int d = Inr (session d b None)"
    and "update_binary_version (session d b (Some (version b')))
           = Inr (session d2 b (Some (version b')))"
    and "update_string_version (session d2 b (Some (version b')))
           = Inr (ok, session d3 b (Some (version b')))"
  shows "bump ascii_int d (Some b') False
           = (Inr (session d3 b (Some (version b'))), Some d3)"
  using assms by (simp add: bump_def calculate_session session_simps Let_def)

text \<open>Build 9 to build 10 on \<open>res_9\<close>.\<close>

lemma locate_res_9_10: "locate_build (res_9[118 := 10]) 380 0 = Some 396"
  by (simp add: scan_simps res_9_def)

lemma scan_res_9_10: "scan_build_end (res_9[118 := 10]) 396 = 398"
  by (simp add: scan_simps res_9_def)

lemma resize_res_9_10:
  "resize_build (session (res_9[118 := 10]) 9 (Some (version 10))) ''9'' ''10'' 1
     = Inr (Some res_9_grown)"
  by (simp add: resize_simps session_simps res_9_def res_9_grown_def)

lemma positions_res_9_grown: "find_positions res_9_grown (version 9) ''9'' 0 = [444]"
  by (simp add: find_positions.simps find_def encode_utf16le_def version_text_def
        session_simps str_int_values res_9_grown_def)

lemma string_res_9_10:
  "update_string_version (session (res_9[118 := 10]) 9 (Some (version 10)))
     = Inr (True, session res_9_grown 9 (Some (version 10)))"
  using string_session_resize [of 10 9 "res_9[118 := 10]" res_9_grown]
    resize_res_9_10 positions_res_9_grown
  by (simp add: str_int_values update_all_version_strings_with_length_change_def)

lemma bump_res_9_10:
  "bump ascii_int res_9 (Some 10) False
     = (Inr (session res_9_grown 9 (Some (version 10))), Some res_9_grown)"
  by (rule bump_session [OF analyze_res_9 bin_res_9_10 string_res_9_10])

text \<open>Build 10 back to build 9 on \<open>res_9_grown\<close>.\<close>

lemma locate_res_9_grown_9: "locate_build (res_9_grown[118 := 9]) 380 0 = Some 396"
  by (simp add: scan_simps res_9_grown_def)

lemma scan_res_9_grown_9: "scan_build_end (res_9_grown[118 := 9]) 396 = 400"
  by (simp add: scan_simps res_9_grown_def)

lemma resize_res_9_grown_9:
  "resize_build (session (res_9_grown[118 := 9]) 10 (Some (version 9))) ''10'' ''9'' (- 1)
     = Inr (Some res_9_back)"
  by (simp add: resize_simps session_simps res_9_grown_def res_9_back_def)

lemma positions_res_9_back: "find_positions res_9_back (version 10) ''10'' 0 = []"
  by (simp add: find_positions.simps find_def encode_utf16le_def version_text_def
        session_simps str_int_values res_9_back_def)

lemma string_res_9_grown_9:
  "update_string_version (session (res_9_grown[118 := 9]) 10 (Some (version 9)))
     = Inr (True, session res_9_back 10 (Some (version 9)))"
  using string_session_resize [of 9 10 "res_9_grown[118 := 9]" res_9_back]
    resize_res_9_grown_9 positions_res_9_back
  by (simp add: str_int_values update_all_version_strings_with_length_change_def)

lemma bump_res_9_grown_9:
  "bump ascii_int res_9_grown (Some 9) False
     = (Inr (session res_9_back 10 (Some (version 9))), Some res_9_back)"
  by (rule bump_session [OF analyze_res_9_grown bin_res_9_grown_9 string_res_9_grown_9])

text \<open>Build 9 to build 8 on \<open>res_9\<close>.\<close>

lemma locate_res_9_8: "locate_build (res_9[118 := 8]) 380 0 = Some 396"
  by (simp add: scan_simps res_9_def)

lemma write_res_9_8:
  "write_chars (res_9[118 := 8]) 396 ''8'' = Inr (res_9[118 := 8, 396 := 56])"
  by (simp add: pack_into_H_def struct_offset_def Let_def res_9_def)

lemma sweep_res_9_8:
  "update_all_version_strings (res_9[118 := 8, 396 := 56]) ''9'' ''8'' = Inr res_8"
  by (simp add: update_all_version_strings_def update_all_version_strings_from.simps
        find_def encode_utf16le_def res_9_def res_8_def)

lemma string_res_9_8:
  "update_string_version (session (res_9[118 := 8]) 9 (Some (version 8)))
     = Inr (True, session res_8 9 (Some (version 8)))"
  by (simp add: update_string_version_def update_string_version_same_length_def
        session_simps str_int_values locate_res_9_8 write_res_9_8 sweep_res_9_8 Let_def
        del: write_chars.simps)

lemma bump_res_9_8:
  "bump ascii_int res_9 (Some 8) False
     = (Inr (session res_8 9 (Some (version 8))), Some res_8)"
  by (rule bump_session [OF analyze_res_9 bin_res_9_8 string_res_9_8])








text \<open>The session on \<open>overlapping\<close> with the automatic increment.\<close>

lemma analyze_overlapping:
  "analyze ascii_int overlapping = Inr (overlapping_session overlapping None)"
proof -
  have "find overlapping VS_FFI_SIGNATURE 0 = Some 0"
    by (simp add: find_def VS_FFI_SIGNATURE_def overlapping_def)
  from find_binary_version_found [OF this]
  have b: "find_binary_version overlapping = Inr (0, 12, 20)"
    by (simp add: overlapping_def VS_FFI_SIGNATURE_def encode_utf16le_def)
  have "find overlapping (encode_utf16le ''FileVersion'') 0 = Some 4"
    by (simp add: find_def VS_FFI_SIGNATURE_def encode_utf16le_def overlapping_def)
  moreover have "skip_padding overlapping 28 = 28"
    by (simp add: scan_simps VS_FFI_SIGNATURE_def encode_utf16le_def overlapping_def)
  moreover have "read_version_chars overlapping 28 = [49, 46, 50, 46, 57, 46, 48]"
    by (simp add: scan_simps VS_FFI_SIGNATURE_def encode_utf16le_def overlapping_def)
  moreover have "from_string ascii_int [49, 46, 50, 46, 57, 46, 48]
                   = Inr \<lparr>major = 1, minor = 2, build = 9, release = 0\<rparr>"
    by (simp add: from_string_def ascii_int_def is_space_def)
  ultimately have "find_string_version ascii_int overlapping
                     = Inr (28, \<lparr>major = 1, minor = 2, build = 9, release = 0\<rparr>)"
    by (simp add: find_string_version_def encode_utf16le_length Let_def)
  with b show ?thesis by (simp add: analyze_def overlapping_session_def)
qed

lemma bin_overlapping:
  "update_binary_version
       (overlapping_session overlapping (Some \<lparr>major = 1, minor = 2, build = 10, release = 0\<rparr>))
     = Inr (overlapping_session (overlapping[14 := 10])
              (Some \<lparr>major = 1, minor = 2, build = 10, release = 0\<rparr>))"
  by (simp add: update_binary_version_def overlapping_session_def pack_into_H_def
        struct_offset_def Let_def overlapping_def VS_FFI_SIGNATURE_def encode_utf16le_def)

lemma marker_overlapping:
  "find (overlapping[14 := 10]) (encode_utf16le ''FileVersion'') 0 = None"
  by (simp add: find_def VS_FFI_SIGNATURE_def encode_utf16le_def overlapping_def)

lemma string_overlapping:
  "update_string_version
       (overlapping_session (overlapping[14 := 10])
          (Some \<lparr>major = 1, minor = 2, build = 10, release = 0\<rparr>))
     = Inr (False, overlapping_session (overlapping[14 := 10])
                     (Some \<lparr>major = 1, minor = 2, build = 10, release = 0\<rparr>))"
proof -
  have "resize_build
          (overlapping_session (overlapping[14 := 10])
             (Some \<lparr>major = 1, minor = 2, build = 10, release = 0\<rparr>)) ''9'' ''10'' 1
          = Inr None"
    using marker_overlapping by (simp add: resize_build_def overlapping_session_def)
  then show ?thesis
    by (simp add: update_string_version_def update_string_version_diff_length_def
          overlapping_session_def str_int_values Let_def)
qed

lemma bump_overlapping:
  "bump ascii_int overlapping None False
     = (Inr (overlapping_session (overlapping[14 := 10])
               (Some \<lparr>major = 1, minor = 2, build = 10, release = 0\<rparr>)),
        Some (overlapping[14 := 10]))"
proof -
  have c: "snd (calculate_new_version (overlapping_session overlapping None) None)
             = overlapping_session overlapping
                 (Some \<lparr>major = 1, minor = 2, build = 10, release = 0\<rparr>)"
    by (simp add: calculate_new_version_def overlapping_session_def Let_def)
  show ?thesis
    by (simp add: bump_def analyze_overlapping c bin_overlapping string_overlapping Let_def)
       (simp add: overlapping_session_def)
qed

section \<open>The claims on the concrete files\<close>



text \<open>
  Claim C8, an instance of the theorem above: the session on \<open>res_9\<close> with the target build
  65536.
\<close>

theorem build_above_16_bits_fails_witness:
  "analyze ascii_int res_9 = Inr (session res_9 9 None)
   \<and> 65535 < build (fst (calculate_new_version (session res_9 9 None) (Some 65536)))
   \<and> update_binary_version (snd (calculate_new_version (session res_9 9 None) (Some 65536)))
       = Inl OutOfRange
   \<and> bump ascii_int res_9 (Some 65536) False = (Inl OutOfRange, None)"
proof -
  have b: "65535 < build (fst (calculate_new_version (session res_9 9 None) (Some 65536)))"
    by (simp add: calculate_new_version_def Let_def)
  from build_above_16_bits_fails [OF analyze_res_9 b, of False] analyze_res_9 b
  show ?thesis by blast
qed



text \<open>
  Claim C5, an instance of the theorem above: the session on \<open>res_9\<close> with the target
  build 8.  The byte at offset 456 differs; it is neither in the binary half-word nor in the
  digits at 396, so it lies in an occurrence of \<^verbatim>\<open>.9.\<close> that the sweep rewrote.
\<close>

theorem same_width_patch_frame_witness:
  "update_binary_version (session res_9 9 (Some (version 8)))
     = Inr (session (res_9[118 := 8]) 9 (Some (version 8)))
   \<and> update_string_version (session (res_9[118 := 8]) 9 (Some (version 8)))
       = Inr (True, session res_8 9 (Some (version 8)))
   \<and> length (str_int 8) = length (str_int 9)
   \<and> length res_8 = length res_9
   \<and> res_8 ! 456 \<noteq> res_9 ! 456
   \<and> (\<exists>p. p \<le> 456 \<and> 456 < p + 6 \<and> take 6 (drop p res_8) = encode_utf16le ''.8.'')"
proof -
  let ?s = "session res_9 9 (Some (version 8))"
  have nv: "new_version ?s = Some (version 8)" by (simp add: session_simps)
  have w: "length (str_int (build (version 8))) = length (str_int (build (current_version ?s)))"
    by (simp add: session_simps str_int_values)
  have n: "res_8 ! 456 \<noteq> res_9 ! 456" by (simp add: res_8_def res_9_def)
  from same_width_patch_frame [OF nv w bin_res_9_8 string_res_9_8]
  have len: "length res_8 = length res_9"
    and fr: "res_8 ! i \<noteq> res_9 ! i \<longrightarrow>
           i = 118 \<or> i = 119 \<or> 396 \<le> i \<and> i < 398
         \<or> (\<exists>p. p \<le> i \<and> i < p + 6 \<and> take 6 (drop p res_8) = encode_utf16le ''.8.'')" for i
    by (auto simp: session_simps str_int_values locate_res_9_8 encode_utf16le_length)
  from fr [of 456] n
  have "\<exists>p. p \<le> 456 \<and> 456 < p + 6 \<and> take 6 (drop p res_8) = encode_utf16le ''.8.''"
    by simp
  with len n bin_res_9_8 string_res_9_8 show ?thesis
    by (simp add: str_int_values)
qed

text \<open>
  Claim C5 as stated fails on \<open>res_9\<close> with the target build 8: the byte at offset 456 is the
  build digit of the \<^verbatim>\<open>ProductVersion\<close> text, outside the binary half-word (118, 119) and
  outside the digit run of the version text the analysis found (396, 397), and the sweep of
  \<^verbatim>\<open>_update_all_version_strings\<close> rewrites it.
\<close>

theorem same_width_sweep_counterexample:
  "bump ascii_int res_9 (Some 8) False = (Inr (session res_8 9 (Some (version 8))), Some res_8)
   \<and> length (str_int 8) = length (str_int 9)
   \<and> file_version_ls_offset (session res_9 9 None) + 2 = 118
   \<and> locate_build (res_9[118 := 8]) 380 0 = Some 396
   \<and> res_9 ! 456 = 57 \<and> res_8 ! 456 = 56"
  by (simp add: bump_res_9_8 locate_res_9_8 str_int_values session_simps)
     (simp add: res_9_def res_8_def)



text \<open>
  Claim C3, an instance of the theorem above: the text updates of the session on \<open>res_9\<close>
  with the target build 10 and of the session on its result with the target build 9.
\<close>

theorem grow_then_shrink_length_witness:
  "update_string_version (session (res_9[118 := 10]) 9 (Some (version 10)))
     = Inr (True, session res_9_grown 9 (Some (version 10)))
   \<and> update_string_version (session (res_9_grown[118 := 9]) 10 (Some (version 9)))
       = Inr (True, session res_9_back 10 (Some (version 9)))
   \<and> length res_9_grown = length (res_9[118 := 10]) + 4
   \<and> length res_9_back = length (res_9[118 := 10]) + 4
   \<and> res_9_back \<noteq> res_9[118 := 10]"
proof -
  let ?s = "session (res_9[118 := 10]) 9 (Some (version 10))"
  let ?s' = "session res_9_grown 9 (Some (version 10))"
  let ?t = "session (res_9_grown[118 := 9]) 10 (Some (version 9))"
  let ?t' = "session res_9_back 10 (Some (version 9))"
  have g_nv: "new_version ?s = Some (version 10)" by (simp add: session_simps)
  have g_cur: "build (current_version ?s) = 9" by (simp add: session_simps)
  have g_new: "build (version 10) = 10" by (simp add: session_simps)
  have g_lb: "locate_build (data ?s) (file_version_string_offset ?s) 0 = Some 396"
    by (simp add: session_simps locate_res_9_10)
  have g_canonical: "scan_build_end (data ?s) 396 = 396 + 2"
    by (simp add: session_simps scan_res_9_10)
  have g_resize: "resize_build ?s (str_int 9) (str_int 10) 1 = Inr (Some res_9_grown)"
    by (simp add: str_int_values resize_res_9_10)
  have g_sweep: "length (find_positions res_9_grown (current_version ?s) (str_int 9) 0) \<le> 1"
    by (simp add: session_simps str_int_values positions_res_9_grown)
  have again: "length (data ?t) = length (data ?s')" by (simp add: session_simps)
  have s_nv: "new_version ?t = Some (version 9)" by (simp add: session_simps)
  have s_cur: "build (current_version ?t) = 10" by (simp add: session_simps)
  have s_new: "build (version 9) = 9" by (simp add: session_simps)
  have s_lb: "locate_build (data ?t) (file_version_string_offset ?t) 0 = Some 396"
    by (simp add: session_simps locate_res_9_grown_9)
  have s_canonical: "scan_build_end (data ?t) 396 = 396 + 4"
    by (simp add: session_simps scan_res_9_grown_9)
  have s_resize: "resize_build ?t (str_int 10) (str_int 9) (- 1) = Inr (Some res_9_back)"
    by (simp add: str_int_values resize_res_9_grown_9)
  have s_sweep: "length (find_positions res_9_back (current_version ?t) (str_int 10) 0) \<le> 1"
    by (simp add: session_simps str_int_values positions_res_9_back)
  from grow_then_shrink_length [OF g_nv g_cur g_new g_lb g_canonical string_res_9_10
      g_resize g_sweep again s_nv s_cur s_new s_lb s_canonical string_res_9_grown_9
      s_resize s_sweep]
  have "length res_9_grown = length (res_9[118 := 10]) + 4
        \<and> length res_9_back = length (res_9[118 := 10]) + 4
        \<and> res_9_back \<noteq> res_9[118 := 10]"
    by (simp add: session_simps)
  with string_res_9_10 string_res_9_grown_9 show ?thesis by blast
qed

text \<open>
  Claim C3 as stated fails on \<open>res_9\<close>: the session with the target build 10 saves
  \<open>res_9_grown\<close>, the session on \<open>res_9_grown\<close> with the target build 9 saves \<open>res_9_back\<close>,
  and \<open>res_9_back\<close> is four bytes longer than \<open>res_9\<close>.
\<close>

theorem grow_then_shrink_counterexample:
  "bump ascii_int res_9 (Some 10) False
     = (Inr (session res_9_grown 9 (Some (version 10))), Some res_9_grown)
   \<and> bump ascii_int res_9_grown (Some 9) False
       = (Inr (session res_9_back 10 (Some (version 9))), Some res_9_back)
   \<and> length res_9_back = length res_9 + 4
   \<and> res_9_back \<noteq> res_9"
proof -
  have "length res_9_back = length res_9 + 4" by (simp add: res_9_back_def res_9_def)
  moreover from this have "res_9_back \<noteq> res_9" by auto
  ultimately show ?thesis by (simp add: bump_res_9_10 bump_res_9_grown_9)
qed

text \<open>
  Claim C4 on \<open>res_9\<close>, where the old version text \<^verbatim>\<open>10.2503.9.0\<close> occurs at 380 and at 440.
  The session with the target build 10 saves \<open>res_9_grown\<close>, in which the text at 380 reads
  \<^verbatim>\<open>10.2503.10.0\<close>, the second occurrence (now at 444) still reads \<^verbatim>\<open>10.2503.9.0\<close>, and the new
  text occurs nowhere else: the sweep collects its positions after the first occurrence
  has been rewritten and then skips the first position it collected.
\<close>

theorem second_occurrence_not_updated:
  "take 22 (drop 380 res_9) = encode_utf16le ''10.2503.9.0''
   \<and> take 22 (drop 440 res_9) = encode_utf16le ''10.2503.9.0''
   \<and> bump ascii_int res_9 (Some 10) False
       = (Inr (session res_9_grown 9 (Some (version 10))), Some res_9_grown)
   \<and> take 24 (drop 380 res_9_grown) = encode_utf16le ''10.2503.10.0''
   \<and> take 22 (drop 444 res_9_grown) = encode_utf16le ''10.2503.9.0''
   \<and> find res_9_grown (encode_utf16le ''10.2503.10.0'') 381 = None"
  by (simp add: bump_res_9_10)
     (simp add: find_def encode_utf16le_def res_9_def res_9_grown_def)

text \<open>
  Claim C6 on \<open>overlapping\<close> with the automatic increment from build 9 to build 10.  The
  analysis succeeds; the binary half-word at offset 14 lies inside the marker, so after
  \<^verbatim>\<open>update_binary_version\<close> the marker is no longer found and \<^verbatim>\<open>update_string_version\<close>
  returns \<^verbatim>\<open>False\<close> with the text as it was.  \<^verbatim>\<open>bump\<close> does not look at that result and saves
  the buffer, whose binary build is 10 and whose text still reads \<^verbatim>\<open>1.2.9.0\<close>.
\<close>

theorem failed_text_update_is_saved:
  "analyze ascii_int overlapping = Inr (overlapping_session overlapping None)
   \<and> find (overlapping[14 := 10]) (encode_utf16le ''FileVersion'') 0 = None
   \<and> update_string_version
         (overlapping_session (overlapping[14 := 10])
            (Some \<lparr>major = 1, minor = 2, build = 10, release = 0\<rparr>))
       = Inr (False, overlapping_session (overlapping[14 := 10])
                       (Some \<lparr>major = 1, minor = 2, build = 10, release = 0\<rparr>))
   \<and> bump ascii_int overlapping None False
       = (Inr (overlapping_session (overlapping[14 := 10])
                 (Some \<lparr>major = 1, minor = 2, build = 10, release = 0\<rparr>)),
          Some (overlapping[14 := 10]))
   \<and> overlapping[14 := 10] \<noteq> overlapping
   \<and> take 14 (drop 28 (overlapping[14 := 10])) = encode_utf16le ''1.2.9.0''"
  by (simp add: analyze_overlapping marker_overlapping string_overlapping bump_overlapping)
     (simp add: overlapping_def VS_FFI_SIGNATURE_def encode_utf16le_def)

end
